theory Spec2Isabelle
  imports Main "HOL-Library.List_Lexorder" "HOL-Library.Product_Lexorder" "HOL-Library.Multiset"
begin

section \<open>Python values used by bib_to_html.py\<close>

text \<open>
  A Python \<open>str\<close> is a sequence of Unicode code points, and \<open>str\<close> comparison is
  lexicographic on code points. A string is therefore modelled as a list of code points
  (\<open>nat\<close>), ordered by the lexicographic order on lists. Literals of the source are
  written \<open>lit ''...''\<close>; the en-dash of line 101 (U+2013) is the code point 8211.
\<close>

type_synonym pstr = "nat list"

definition lit :: "string \<Rightarrow> pstr" where
  "lit s = map of_char s"

definition dq :: pstr where
  \<comment> \<open>the double quote character\<close>
  "dq = [34]"

definition nl :: pstr where
  \<comment> \<open>the newline character\<close>
  "nl = [10]"

definition en_dash :: pstr where
  "en_dash = [8211]"

text \<open>The exceptions the modelled code can raise.\<close>

datatype error = IndexError | KeyError

text \<open>\<open>xs[0]\<close> and \<open>xs[-1]\<close>: both raise IndexError on an empty list.\<close>

definition index_first :: "'a list \<Rightarrow> error + 'a" where
  "index_first xs = (case xs of [] \<Rightarrow> Inl IndexError | x # _ \<Rightarrow> Inr x)"

definition index_last :: "'a list \<Rightarrow> error + 'a" where
  "index_last xs = (if xs = [] then Inl IndexError else Inr (last xs))"

text \<open>
  \<open>str.isspace\<close> for one code point: the code points CPython treats as whitespace in
  \<open>strip()\<close> and in \<open>split()\<close> without a separator.
\<close>

definition isspace :: "nat \<Rightarrow> bool" where
  "isspace c \<longleftrightarrow>
     (9 \<le> c \<and> c \<le> 13) \<or> (28 \<le> c \<and> c \<le> 32) \<or> c = 133 \<or> c = 160 \<or> c = 5760 \<or>
     (8192 \<le> c \<and> c \<le> 8202) \<or> c = 8232 \<or> c = 8233 \<or> c = 8239 \<or> c = 8287 \<or> c = 12288"

text \<open>\<open>s.strip()\<close>: leading and trailing whitespace removed.\<close>

definition strip :: "pstr \<Rightarrow> pstr" where
  "strip s = rev (dropWhile isspace (rev (dropWhile isspace s)))"

text \<open>\<open>s.startswith(p)\<close> and \<open>s.endswith(p)\<close>.\<close>

definition startswith :: "pstr \<Rightarrow> pstr \<Rightarrow> bool" where
  "startswith s p \<longleftrightarrow> take (length p) s = p"

definition endswith :: "pstr \<Rightarrow> pstr \<Rightarrow> bool" where
  "endswith s p \<longleftrightarrow> length p \<le> length s \<and> drop (length s - length p) s = p"

text \<open>\<open>sub in s\<close>: \<open>sub\<close> occurs in \<open>s\<close> as a substring.\<close>

fun contains :: "pstr \<Rightarrow> pstr \<Rightarrow> bool" where
  "contains [] sub = (sub = [])"
| "contains (c # cs) sub = (startswith (c # cs) sub \<or> contains cs sub)"

text \<open>
  \<open>s.split(sep)\<close> with a separator: the pieces between the non-overlapping occurrences
  of \<open>sep\<close>, found from the left; the result always has at least one piece. \<open>cur\<close> is
  the piece being collected. Every call of the source passes a non-empty literal
  separator (Python raises ValueError on an empty one, which no call here can reach).
\<close>

function split_from :: "pstr \<Rightarrow> pstr \<Rightarrow> pstr \<Rightarrow> pstr list" where
  "split_from cur [] sep = [cur]"
| "split_from cur (c # cs) sep =
     (if sep \<noteq> [] \<and> startswith (c # cs) sep
      then cur # split_from [] (drop (length sep) (c # cs)) sep
      else split_from (cur @ [c]) cs sep)"
  by pat_completeness auto
termination
  by (relation "measure (\<lambda>(cur, s, sep). length s)") auto

definition split :: "pstr \<Rightarrow> pstr \<Rightarrow> pstr list" where
  "split s sep = split_from [] s sep"

text \<open>
  \<open>s.split()\<close> without a separator: the maximal runs of non-whitespace characters;
  the result is empty when \<open>s\<close> is empty or all whitespace.
\<close>

fun split_ws_from :: "pstr \<Rightarrow> pstr \<Rightarrow> pstr list" where
  "split_ws_from cur [] = (if cur = [] then [] else [cur])"
| "split_ws_from cur (c # cs) =
     (if isspace c then (if cur = [] then split_ws_from [] cs else cur # split_ws_from [] cs)
      else split_ws_from (cur @ [c]) cs)"

definition split_ws :: "pstr \<Rightarrow> pstr list" where
  "split_ws s = split_ws_from [] s"

text \<open>\<open>sep.join(xs)\<close>.\<close>

fun join :: "pstr \<Rightarrow> pstr list \<Rightarrow> pstr" where
  "join sep [] = []"
| "join sep [x] = x"
| "join sep (x # y # ys) = x @ sep @ join sep (y # ys)"

text \<open>
  \<open>s.replace(old, new)\<close> for a non-empty \<open>old\<close>: the non-overlapping occurrences of
  \<open>old\<close>, found from the left, are replaced by \<open>new\<close>.
\<close>

function replace :: "pstr \<Rightarrow> pstr \<Rightarrow> pstr \<Rightarrow> pstr" where
  "replace [] old new = []"
| "replace (c # cs) old new =
     (if old \<noteq> [] \<and> startswith (c # cs) old
      then new @ replace (drop (length old) (c # cs)) old new
      else c # replace cs old new)"
  by pat_completeness auto
termination
  by (relation "measure (\<lambda>(s, old, new). length s)") auto

text \<open>\<open>str(a)\<close> for a non-negative integer: its decimal digits.\<close>

fun str :: "nat \<Rightarrow> pstr" where
  "str n = (if n < 10 then [48 + n] else str (n div 10) @ [48 + n mod 10])"

declare str.simps [simp del]

text \<open>
  A record of the bibliography is a Python dict from field names to field values.
  \<open>k in entry\<close> is \<open>entry k \<noteq> None\<close>; \<open>entry.get(k, d)\<close> is \<open>get entry k d\<close>;
  \<open>entry[k]\<close> raises KeyError when the key is absent.
\<close>

type_synonym entry = "pstr \<rightharpoonup> pstr"

definition get :: "entry \<Rightarrow> pstr \<Rightarrow> pstr \<Rightarrow> pstr" where
  "get entry k d = (case entry k of None \<Rightarrow> d | Some v \<Rightarrow> v)"

definition item :: "entry \<Rightarrow> pstr \<Rightarrow> error + pstr" where
  "item entry k = (case entry k of None \<Rightarrow> Inl KeyError | Some v \<Rightarrow> Inr v)"

section \<open>get_author_string (lines 28-58)\<close>

text \<open>
  The body of the loop of lines 39-51 for one author: the surname, or the IndexError of
  \<open>parts[-1]\<close> when a piece without a comma has no non-whitespace character.
\<close>

definition author_last :: "pstr \<Rightarrow> error + pstr" where
  "author_last author0 =
     (let author = strip author0 in
      if contains author (lit '','')
      then index_first (map strip (split author (lit '','')))
      else index_last (split_ws author))"

text \<open>The loop itself: \<open>formatted_authors\<close> grows by one surname per author.\<close>

fun format_authors :: "pstr list \<Rightarrow> pstr list \<Rightarrow> error + pstr list" where
  "format_authors [] formatted_authors = Inr formatted_authors"
| "format_authors (author # authors) formatted_authors =
     (case author_last author of
        Inl err \<Rightarrow> Inl err
      | Inr l \<Rightarrow> format_authors authors (formatted_authors @ [l]))"

definition get_author_string :: "entry \<Rightarrow> error + pstr" where
  "get_author_string entry =
     (case entry (lit ''author'') of
        None \<Rightarrow> Inr []
      | Some v \<Rightarrow>
          (case format_authors (split v (lit '' and '')) [] of
             Inl err \<Rightarrow> Inl err
           | Inr formatted_authors \<Rightarrow>
               if length formatted_authors > 1
               then Inr (join (lit '', '') (butlast formatted_authors)
                         @ lit '' & '' @ last formatted_authors)
               else if formatted_authors \<noteq> [] then Inr (hd formatted_authors)
               else Inr []))"

section \<open>format_bibtex_entry (lines 60-129)\<close>

text \<open>Lines 70-76: the link behind the title.\<close>

definition link_of :: "entry \<Rightarrow> pstr" where
  "link_of entry =
     (let link = get entry (lit ''url'') (get entry (lit ''doi'') (lit ''#'')) in
      if link \<noteq> lit ''#'' \<and> \<not> (startswith link (lit ''http'') \<or> startswith link (lit ''ftp''))
      then (case entry (lit ''doi'') of
              Some doi \<Rightarrow> lit ''https://doi.org/'' @ doi
            | None \<Rightarrow> lit ''#'')
      else link)"

text \<open>Lines 80-83: the custom note; \<open>entry['note']\<close> is the lookup that can raise.\<close>

definition custom_note_of :: "entry \<Rightarrow> error + pstr" where
  "custom_note_of entry =
     (if startswith (get entry (lit ''note'') []) (lit ''('')
         \<and> endswith (get entry (lit ''note'') []) (lit '')'')
      then (case item entry (lit ''note'') of Inl err \<Rightarrow> Inl err | Inr n \<Rightarrow> Inr (strip n))
      else Inr [])"

text \<open>Lines 86-102: container, volume and pages.\<close>

definition container_of :: "entry \<Rightarrow> pstr" where
  "container_of entry =
     (case entry (lit ''journal'') of
        Some journal \<Rightarrow> lit ''<em>'' @ journal @ lit ''</em>''
      | None \<Rightarrow>
       (case entry (lit ''booktitle'') of
          Some booktitle \<Rightarrow> lit ''<em>In '' @ booktitle @ lit ''</em>''
        | None \<Rightarrow>
         (case entry (lit ''publisher'') of
            Some publisher \<Rightarrow> lit ''<em>'' @ publisher @ lit ''</em>''
          | None \<Rightarrow> [])))"

definition volume_of :: "entry \<Rightarrow> pstr" where
  "volume_of entry =
     (case entry (lit ''volume'') of Some v \<Rightarrow> lit '', Vol. '' @ v | None \<Rightarrow> [])"

definition pages_of :: "entry \<Rightarrow> pstr" where
  "pages_of entry =
     (case entry (lit ''pages'') of
        Some p \<Rightarrow> (let pages_val = replace p (lit ''--'') en_dash in lit '', pp. '' @ pages_val)
      | None \<Rightarrow> [])"

text \<open>Lines 105-109: the fragment up to the title link.\<close>

definition html_head :: "pstr \<Rightarrow> pstr \<Rightarrow> pstr \<Rightarrow> pstr \<Rightarrow> pstr" where
  "html_head author_str year link title =
     nl @ lit ''<li>'' @ nl @ lit ''<p>'' @ author_str @ lit '' ('' @ year @ lit '').'' @ nl
     @ lit ''<br>'' @ nl @ lit ''<a href='' @ dq @ link @ dq @ lit '' class='' @ dq
     @ lit ''external'' @ dq @ lit ''>'' @ title @ lit ''</a>''"

text \<open>Line 118: one auxiliary link.\<close>

definition aux_link :: "pstr \<Rightarrow> pstr \<Rightarrow> pstr" where
  "aux_link url url_note =
     lit '' <a href='' @ dq @ url @ dq @ lit '' class='' @ dq @ lit ''external'' @ dq
     @ lit ''>['' @ url_note @ lit '']</a>''"

text \<open>
  Lines 111-118: the loop over \<open>range(2,31)\<close>, given the indices still to visit and the
  fragment built so far; an absent \<open>url_<a>\<close> is the \<open>break\<close>.
\<close>

fun aux_links :: "entry \<Rightarrow> nat list \<Rightarrow> pstr \<Rightarrow> pstr" where
  "aux_links entry [] html = html"
| "aux_links entry (a # as) html =
     (case entry (lit ''url_'' @ str a) of
        None \<Rightarrow> html
      | Some url \<Rightarrow>
          (let url_note =
             (case entry (lit ''url_note_'' @ str a) of
                None \<Rightarrow> lit ''link '' @ str a
              | Some n \<Rightarrow> n)
           in aux_links entry as (html @ aux_link url url_note)))"

definition format_bibtex_entry :: "entry \<Rightarrow> error + pstr" where
  "format_bibtex_entry entry =
     (let title = get entry (lit ''title'') (lit ''Unknown title'') in
      case get_author_string entry of
        Inl err \<Rightarrow> Inl err
      | Inr author_str \<Rightarrow>
     (let year = get entry (lit ''year'') (lit ''n.d.'');
          link = link_of entry in
      case custom_note_of entry of
        Inl err \<Rightarrow> Inl err
      | Inr custom_note \<Rightarrow>
     (let container = container_of entry;
          volume = volume_of entry;
          pages = pages_of entry;
          html = html_head author_str year link title;
          html = aux_links entry [2..<31] html;
          html = (if custom_note \<noteq> []
                  then html @ lit '' <strong>'' @ custom_note @ lit ''</strong>.''
                  else html @ lit ''.'');
          html = (if container \<noteq> [] \<or> volume \<noteq> [] \<or> pages \<noteq> []
                  then html @ lit '' '' @ container @ volume @ pages @ lit ''.''
                  else html)
      in Inr (html @ lit ''</p>'' @ nl @ lit ''</li>''))))"

section \<open>convert_bib_to_html (lines 131-197)\<close>

text \<open>
  \<open>sorted(xs, key=f)\<close>: Python first computes the key of every element, in list order
  (the first exception propagates and nothing is sorted), then sorts the elements stably
  by comparing their keys. The stable sorted order is unique and is the one
  \<^const>\<open>sort_key\<close> computes.
\<close>

fun keys_of :: "('a \<Rightarrow> error + 'k) \<Rightarrow> 'a list \<Rightarrow> error + 'k list" where
  "keys_of key [] = Inr []"
| "keys_of key (x # xs) =
     (case key x of
        Inl err \<Rightarrow> Inl err
      | Inr k \<Rightarrow> (case keys_of key xs of Inl err \<Rightarrow> Inl err | Inr ks \<Rightarrow> Inr (k # ks)))"

definition sorted_key :: "('a \<Rightarrow> error + 'k::linorder) \<Rightarrow> 'a list \<Rightarrow> error + 'a list" where
  "sorted_key key xs =
     (case keys_of key xs of
        Inl err \<Rightarrow> Inl err
      | Inr ks \<Rightarrow> Inr (map snd (sort_key fst (zip ks xs))))"

text \<open>
  Line 156, the key of the first pass. \<open>str.lower\<close> applies the Unicode case mapping; it
  is a parameter \<open>lower\<close> of the model, so that every result holds whatever it maps a
  string to.
\<close>

definition surname_key :: "(pstr \<Rightarrow> pstr) \<Rightarrow> entry \<Rightarrow> error + pstr" where
  "surname_key lower entry =
     (case index_first (split (get entry (lit ''author'') []) (lit '' and '')) of
        Inl err \<Rightarrow> Inl err
      | Inr first_author \<Rightarrow>
     (case index_first (split first_author (lit '','')) of
        Inl err \<Rightarrow> Inl err
      | Inr before_comma \<Rightarrow>
     (case index_last (split_ws before_comma) of
        Inl err \<Rightarrow> Inl err
      | Inr token \<Rightarrow> Inr (lower token))))"

text \<open>Line 160, the key of the second pass.\<close>

definition year_key :: "entry \<Rightarrow> pstr" where
  "year_key entry = get entry (lit ''year'') []"

text \<open>Lines 154-161: the two passes.\<close>

definition sort_entries :: "(pstr \<Rightarrow> pstr) \<Rightarrow> entry list \<Rightarrow> error + entry list" where
  "sort_entries lower entries =
     (case sorted_key (surname_key lower) entries of
        Inl err \<Rightarrow> Inl err
      | Inr sorted_entries_1 \<Rightarrow> sorted_key (\<lambda>entry. Inr (year_key entry)) sorted_entries_1)"

text \<open>Lines 164-166: the fragments of the sorted entries, concatenated.\<close>

fun format_all :: "entry list \<Rightarrow> pstr \<Rightarrow> error + pstr" where
  "format_all [] html_content = Inr html_content"
| "format_all (entry # entries) html_content =
     (case format_bibtex_entry entry of
        Inl err \<Rightarrow> Inl err
      | Inr fragment \<Rightarrow> format_all entries (html_content @ fragment))"

text \<open>Lines 169-190: the document around the list.\<close>

definition full_html :: "pstr \<Rightarrow> pstr" where
  "full_html html_content =
     lit ''<!DOCTYPE html>'' @ nl
     @ lit ''<html lang='' @ dq @ lit ''it'' @ dq @ lit ''>'' @ nl
     @ lit ''<head>'' @ nl
     @ lit ''    <meta charset='' @ dq @ lit ''UTF-8'' @ dq @ lit ''>'' @ nl
     @ lit ''    <title>Converted bibliography</title>'' @ nl
     @ lit ''    <style>'' @ nl
     @ lit ''        /* Minimal styles */'' @ nl
     @ lit ''        li {'' @ nl
     @ lit ''            margin-bottom: 1em;'' @ nl
     @ lit ''        }'' @ nl
     @ lit ''        .external {'' @ nl
     @ lit ''            text-decoration: none;'' @ nl
     @ lit ''        }'' @ nl
     @ lit ''    </style>'' @ nl
     @ lit ''</head>'' @ nl
     @ lit ''<body>'' @ nl
     @ lit ''    <h1>References</h1>'' @ nl
     @ lit ''    <ul>'' @ nl
     @ html_content @ nl
     @ lit ''    </ul>'' @ nl
     @ lit ''</body>'' @ nl
     @ lit ''</html>''"

text \<open>
  The file system and the console are the state of the run: what has been printed, and
  the content of the file at the output path (\<open>None\<close> when there is no such file).
  What the outside world does is an input of the model:
  \<^item> \<open>loaded\<close> is the outcome of the \<open>try\<close> block of lines 137-143, the parsed entries or
    the exception raised by opening, decoding or parsing the input file;
  \<^item> \<open>write_outcome\<close> is the outcome of lines 193-194. \<open>open(output_file, 'w')\<close> either
    fails, leaving the file system as it was, or creates the file or truncates it to
    length 0; the write then either completes or fails after some number of characters
    has reached the file.
\<close>

datatype load_error = FileNotFoundError | OtherException pstr

datatype write_outcome = WriteOk | OpenFails pstr | WriteFails nat pstr

record world =
  console :: "pstr list"
  out_file :: "pstr option"

definition print :: "pstr \<Rightarrow> world \<Rightarrow> world" where
  "print msg w = w\<lparr>console := console w @ [msg]\<rparr>"

text \<open>Lines 192-197; 9989 is the code point of the check mark of the message.\<close>

definition write_output :: "write_outcome \<Rightarrow> pstr \<Rightarrow> pstr \<Rightarrow> world \<Rightarrow> world" where
  "write_output outcome output_file content w =
     (case outcome of
        WriteOk \<Rightarrow>
          print (nl @ [9989] @ lit '' Conversion complete! HTML file saved as: '' @ output_file)
            (w\<lparr>out_file := Some content\<rparr>)
      | OpenFails e \<Rightarrow> print (lit ''ERROR in writing the HTML file: '' @ e) w
      | WriteFails n e \<Rightarrow>
          print (lit ''ERROR in writing the HTML file: '' @ e)
            (w\<lparr>out_file := Some (take n content)\<rparr>))"

text \<open>
  The whole function: the exception that leaves it uncaught, if any, and the final state.
\<close>

definition convert_bib_to_html ::
  "(pstr \<Rightarrow> pstr) \<Rightarrow> load_error + entry list \<Rightarrow> write_outcome \<Rightarrow> pstr \<Rightarrow> pstr \<Rightarrow> world
     \<Rightarrow> error option \<times> world" where
  "convert_bib_to_html lower loaded outcome input_file output_file w0 =
     (let w1 = print (lit ''Reading the BibTeX file: '' @ input_file) w0 in
      case loaded of
        Inl FileNotFoundError \<Rightarrow>
          (None, print (lit ''ERROR: File not found: '' @ input_file) w1)
      | Inl (OtherException e) \<Rightarrow>
          (None, print (lit ''ERROR while trying to read the BibTeX file: '' @ e) w1)
      | Inr entries \<Rightarrow>
         (let w2 = print (lit ''Sorting entries by year...'') w1 in
          case sort_entries lower entries of
            Inl err \<Rightarrow> (Some err, w2)
          | Inr sorted_entries \<Rightarrow>
             (case format_all sorted_entries [] of
                Inl err \<Rightarrow> (Some err, w2)
              | Inr html_content \<Rightarrow>
                  (None, write_output outcome output_file (full_html html_content) w2))))"

text \<open>
  An instance of \<open>lower\<close> for the examples: it agrees with \<open>str.lower\<close> on strings of
  ASCII characters.
\<close>

definition ascii_lower :: "pstr \<Rightarrow> pstr" where
  "ascii_lower s = map (\<lambda>c. if 65 \<le> c \<and> c \<le> 90 then c + 32 else c) s"

section \<open>Reference definitions\<close>

text \<open>
  The definitions of this section are not translated from the source. They say, in the
  words of the specification, what a result should be, and the theorems compare the
  functions above with them.
\<close>

definition comma :: nat where
  "comma = of_char CHR '',''"

text \<open>
  The surname of one piece of the author field: the trimmed text before the first comma
  when the trimmed piece has a comma, its last whitespace-delimited token otherwise.
\<close>

definition surname :: "pstr \<Rightarrow> pstr" where
  "surname piece =
     (let t = strip piece in
      if comma \<in> set t then strip (takeWhile (\<lambda>c. c \<noteq> comma) t) else last (split_ws t))"

text \<open>
  The same with the text before the first comma taken as it stands, which is how the
  specification words it.
\<close>

definition surname_claimed :: "pstr \<Rightarrow> pstr" where
  "surname_claimed piece =
     (let t = strip piece in
      if comma \<in> set t then takeWhile (\<lambda>c. c \<noteq> comma) t else last (split_ws t))"

text \<open>
  Surnames joined with a comma and a space between all but the last, and an ampersand
  before the last; a sole surname as it is; nothing for no surname.
\<close>

fun author_list :: "pstr list \<Rightarrow> pstr" where
  "author_list [] = []"
| "author_list [x] = x"
| "author_list [x, y] = x @ lit '' & '' @ y"
| "author_list (x # y # z # zs) = x @ lit '', '' @ author_list (y # z # zs)"

text \<open>
  The sentence after the links: the note, when the note field as it stands starts with an
  opening and ends with a closing parenthesis, emphasized-strong and followed by a
  period; a bare period otherwise.
\<close>

definition note_sentence :: "entry \<Rightarrow> pstr" where
  "note_sentence entry =
     (let note = get entry (lit ''note'') [] in
      if startswith note (lit ''('') \<and> endswith note (lit '')'')
      then lit '' <strong>'' @ note @ lit ''</strong>.''
      else lit ''.'')"

text \<open>The same with the test made on the trimmed note field, as the specification words it.\<close>

definition note_sentence_claimed :: "entry \<Rightarrow> pstr" where
  "note_sentence_claimed entry =
     (let note = strip (get entry (lit ''note'') []) in
      if startswith note (lit ''('') \<and> endswith note (lit '')'')
      then lit '' <strong>'' @ note @ lit ''</strong>.''
      else lit ''.'')"

text \<open>
  The venue sentence: container, volume and pages after a space and before a period when
  one of the three is not empty, nothing otherwise.
\<close>

definition venue_sentence :: "entry \<Rightarrow> pstr" where
  "venue_sentence entry =
     (if container_of entry = [] \<and> volume_of entry = [] \<and> pages_of entry = [] then []
      else lit '' '' @ container_of entry @ volume_of entry @ pages_of entry @ lit ''.'')"

text \<open>Every double hyphen, read from the left, replaced by an en-dash.\<close>

fun en_dashes :: "pstr \<Rightarrow> pstr" where
  "en_dashes (a # b # cs) =
     (if a = 45 \<and> b = 45 then 8211 # en_dashes cs else a # en_dashes (b # cs))"
| "en_dashes cs = cs"

text \<open>The fragment up to and including the auxiliary links.\<close>

definition front :: "entry \<Rightarrow> pstr \<Rightarrow> pstr" where
  "front entry author_str =
     html_head author_str (get entry (lit ''year'') (lit ''n.d.'')) (link_of entry)
       (get entry (lit ''title'') (lit ''Unknown title''))
     @ aux_links entry [2..<31] []"

text \<open>
  The primary link as the specification words it: the url field when it starts with
  \<open>http\<close> or \<open>ftp\<close>, else the DOI URL when there is a doi field, else the placeholder.
\<close>

definition primary_link_claimed :: "entry \<Rightarrow> pstr" where
  "primary_link_claimed entry =
     (let from_doi = (case entry (lit ''doi'') of
                        Some doi \<Rightarrow> lit ''https://doi.org/'' @ doi
                      | None \<Rightarrow> lit ''#'')
      in case entry (lit ''url'') of
           Some url \<Rightarrow>
             if startswith url (lit ''http'') \<or> startswith url (lit ''ftp'') then url else from_doi
         | None \<Rightarrow> from_doi)"

text \<open>What line 71 lets through unchanged.\<close>

definition is_link :: "pstr \<Rightarrow> bool" where
  "is_link s \<longleftrightarrow> s = lit ''#'' \<or> startswith s (lit ''http'') \<or> startswith s (lit ''ftp'')"

text \<open>
  The auxiliary links in the words of the specification: the label of index \<open>n\<close>, the
  indices from 2 up to the first one in 2..30 whose \<open>url_<n>\<close> is absent, and the inline
  link rendered for an index, written out character by character (\<open>CHR 0x22\<close> is the
  double quote).
\<close>

definition aux_label :: "entry \<Rightarrow> nat \<Rightarrow> pstr" where
  "aux_label entry n =
     (case entry (lit ''url_note_'' @ str n) of Some label \<Rightarrow> label | None \<Rightarrow> lit ''link '' @ str n)"

definition aux_indices :: "entry \<Rightarrow> nat list" where
  "aux_indices entry = takeWhile (\<lambda>n. entry (lit ''url_'' @ str n) \<noteq> None) [2..<31]"

definition aux_rendered :: "entry \<Rightarrow> nat \<Rightarrow> pstr" where
  "aux_rendered entry n =
     lit '' <a href='' @ lit [CHR 0x22] @ get entry (lit ''url_'' @ str n) [] @ lit [CHR 0x22]
     @ lit '' class='' @ lit [CHR 0x22] @ lit ''external'' @ lit [CHR 0x22]
     @ lit ''>['' @ aux_label entry n @ lit '']</a>''"

text \<open>
  The composite key of the specification: the raw year string first, the lower-cased
  surname of the first author second. Pairs are compared lexicographically, as Python
  compares tuples.
\<close>

definition composite_key :: "(pstr \<Rightarrow> pstr) \<Rightarrow> entry \<Rightarrow> error + pstr \<times> pstr" where
  "composite_key lower entry =
     (case surname_key lower entry of
        Inl err \<Rightarrow> Inl err
      | Inr surname_lower \<Rightarrow> Inr (year_key entry, surname_lower))"

text \<open>A record with an author and a year, for the examples.\<close>

definition bib :: "string \<Rightarrow> string \<Rightarrow> entry" where
  "bib author year = Map.empty(lit ''author'' \<mapsto> lit author, lit ''year'' \<mapsto> lit year)"

text \<open>
  The message that reports a failure of reading or parsing: it names the missing file, or
  carries the text of the exception.
\<close>

definition read_error_message :: "pstr \<Rightarrow> load_error \<Rightarrow> pstr" where
  "read_error_message input_file err =
     (case err of
        FileNotFoundError \<Rightarrow> lit ''ERROR: File not found: '' @ input_file
      | OtherException cause \<Rightarrow> lit ''ERROR while trying to read the BibTeX file: '' @ cause)"

section \<open>Properties of the string operations\<close>

lemmas str_eval = lit_def split_def startswith_def endswith_def strip_def split_ws_def isspace_def

lemma lit_comma: "lit '','' = [comma]"
  by (simp add: lit_def comma_def)

lemma startswith_single: "startswith (x # xs) [c] \<longleftrightarrow> x = c"
  by (simp add: startswith_def)

lemma contains_single: "contains s [c] \<longleftrightarrow> c \<in> set s"
  by (induction s) (auto simp: startswith_single)

lemma split_from_not_Nil: "split_from cur s sep \<noteq> []"
  by (induction cur s sep rule: split_from.induct) auto

lemma hd_split_from_single: "hd (split_from cur s [c]) = cur @ takeWhile (\<lambda>x. x \<noteq> c) s"
  by (induction cur s "[c]" rule: split_from.induct) (auto simp: startswith_single)

text \<open>
  \<open>s.split(c)[0]\<close> for a one-character separator never raises: it is the text before
  the first \<open>c\<close>.
\<close>

lemma index_first_split:
  "index_first (map f (split s [c])) = Inr (f (takeWhile (\<lambda>x. x \<noteq> c) s))"
proof -
  obtain p ps where eq: "split_from [] s [c] = p # ps"
    using split_from_not_Nil [of "[]" s "[c]"] by (cases "split_from [] s [c]") auto
  from hd_split_from_single [of "[]" s c] eq have "p = takeWhile (\<lambda>x. x \<noteq> c) s" by simp
  with eq show ?thesis by (simp add: index_first_def split_def)
qed

lemma split_ws_from_Nil: "split_ws_from cur s = [] \<longleftrightarrow> cur = [] \<and> (\<forall>c\<in>set s. isspace c)"
  by (induction cur s rule: split_ws_from.induct) auto

lemma all_dropWhile: "(\<forall>x\<in>set (dropWhile P s). P x) \<longleftrightarrow> (\<forall>x\<in>set s. P x)"
  by (induction s) auto

lemma strip_Nil: "strip s = [] \<longleftrightarrow> (\<forall>c\<in>set s. isspace c)"
  by (simp add: strip_def dropWhile_eq_Nil_conv all_dropWhile)

lemma strip_blank: "\<forall>c\<in>set s. isspace c \<Longrightarrow> strip s = []"
  by (simp add: strip_Nil)

lemma strip_not_blank:
  assumes "\<exists>c\<in>set s. \<not> isspace c"
  shows "\<exists>c\<in>set (strip s). \<not> isspace c"
proof -
  let ?ys = "dropWhile isspace (rev (dropWhile isspace s))"
  from assms have "strip s \<noteq> []" by (auto simp: strip_Nil)
  then have ne: "?ys \<noteq> []" by (simp add: strip_def)
  then have "\<not> isspace (hd ?ys)" by (rule hd_dropWhile)
  moreover from ne have "hd ?ys \<in> set ?ys" by simp
  ultimately show ?thesis by (auto simp: strip_def)
qed

section \<open>Properties of get_author_string\<close>

lemma author_last_blank:
  assumes "\<forall>c\<in>set p. isspace c"
  shows "author_last p = Inl IndexError"
  using assms by (simp add: author_last_def strip_blank split_ws_def index_last_def lit_comma)

lemma author_last_error: "author_last p = Inl err \<Longrightarrow> err = IndexError"
  by (auto simp: author_last_def Let_def lit_comma index_first_split index_last_def
      split: if_splits)

lemma format_authors_blank:
  "p \<in> set ps \<Longrightarrow> author_last p = Inl IndexError \<Longrightarrow> format_authors ps acc = Inl IndexError"
proof (induction ps arbitrary: acc)
  case Nil
  then show ?case by simp
next
  case (Cons q ps)
  show ?case
  proof (cases "author_last q")
    case (Inl err)
    then show ?thesis using author_last_error [OF Inl] by simp
  next
    case (Inr l)
    with Cons.prems have "p \<in> set ps" by auto
    with Cons Inr show ?thesis by simp
  qed
qed

lemma author_last_surname:
  assumes "comma \<in> set (strip p) \<or> (\<exists>c\<in>set p. \<not> isspace c)"
  shows "author_last p = Inr (surname p)"
proof (cases "comma \<in> set (strip p)")
  case True
  then show ?thesis
    by (simp add: author_last_def surname_def lit_comma contains_single index_first_split)
next
  case False
  with assms have "\<exists>c\<in>set (strip p). \<not> isspace c" by (auto intro: strip_not_blank)
  then have "split_ws (strip p) \<noteq> []" by (simp add: split_ws_def split_ws_from_Nil)
  with False show ?thesis
    by (simp add: author_last_def surname_def lit_comma contains_single index_last_def)
qed

lemma format_authors_map:
  "\<forall>p\<in>set ps. author_last p = Inr (f p) \<Longrightarrow> format_authors ps acc = Inr (acc @ map f ps)"
  by (induction ps arbitrary: acc) auto

lemma join_author_list:
  "1 < length xs \<Longrightarrow> join (lit '', '') (butlast xs) @ lit '' & '' @ last xs = author_list xs"
  by (induction xs rule: author_list.induct) auto

lemma get_author_string_pieces:
  assumes "entry (lit ''author'') = Some v"
      and "\<forall>p\<in>set (split v (lit '' and '')). author_last p = Inr (f p)"
  shows "get_author_string entry = Inr (author_list (map f (split v (lit '' and ''))))"
proof -
  let ?ps = "split v (lit '' and '')"
  have fa: "format_authors ?ps [] = Inr (map f ?ps)"
    using format_authors_map [OF assms(2), of "[]"] by simp
  show ?thesis
  proof (cases "1 < length ?ps")
    case True
    then show ?thesis
      using assms(1) fa join_author_list [of "map f ?ps"]
      by (simp add: get_author_string_def)
  next
    case False
    moreover have "?ps \<noteq> []" by (simp add: split_def split_from_not_Nil)
    ultimately obtain p where "?ps = [p]"
      by (cases ?ps) auto
    then show ?thesis
      using assms(1) fa by (simp add: get_author_string_def)
  qed
qed

lemma split_example:
  "split (lit ''Jane Doe and Richard Roe and Amy Lee'') (lit '' and '')
     = [lit ''Jane Doe'', lit ''Richard Roe'', lit ''Amy Lee'']"
  by (simp add: str_eval)

text \<open>
  C3, as amended. A record without an author field gives the empty string. For a record
  whose author field has, between the separators \<open>" and "\<close>, only pieces with at least one
  non-whitespace character, the author string is the list of the surnames of the pieces,
  joined with \<open>", "\<close> between all but the last and \<open>" & "\<close> before the last (a sole surname
  as it is), where the surname of a piece is the trimmed text before the first comma of
  the trimmed piece when there is a comma, and its last whitespace-delimited token
  otherwise.
\<close>

theorem get_author_string_spec:
  "(entry (lit ''author'') = None \<longrightarrow> get_author_string entry = Inr []) \<and>
   (\<forall>v. entry (lit ''author'') = Some v \<and>
        (\<forall>p\<in>set (split v (lit '' and '')). \<exists>c\<in>set p. \<not> isspace c)
     \<longrightarrow> get_author_string entry
           = Inr (author_list (map surname (split v (lit '' and '')))))"
proof (intro conjI allI impI)
  assume "entry (lit ''author'') = None"
  then show "get_author_string entry = Inr []" by (simp add: get_author_string_def)
next
  fix v
  assume h: "entry (lit ''author'') = Some v \<and>
        (\<forall>p\<in>set (split v (lit '' and '')). \<exists>c\<in>set p. \<not> isspace c)"
  then have "\<forall>p\<in>set (split v (lit '' and '')). author_last p = Inr (surname p)"
    by (auto intro: author_last_surname)
  with h show "get_author_string entry = Inr (author_list (map surname (split v (lit '' and ''))))"
    by (auto intro: get_author_string_pieces)
qed

theorem get_author_string_spec_witness:
  "get_author_string (Map.empty(lit ''author'' \<mapsto> lit ''Jane Doe and Richard Roe and Amy Lee''))
     = Inr (lit ''Doe, Roe & Lee'')
   \<and> get_author_string (Map.empty(lit ''author'' \<mapsto> lit ''Doe, Jane and Roe, Richard''))
     = Inr (lit ''Doe & Roe'')
   \<and> get_author_string Map.empty = Inr []"
proof -
  let ?v = "lit ''Jane Doe and Richard Roe and Amy Lee''"
  let ?e = "Map.empty(lit ''author'' \<mapsto> ?v)"
  let ?v' = "lit ''Doe, Jane and Roe, Richard''"
  let ?e' = "Map.empty(lit ''author'' \<mapsto> ?v')"
  have hyp: "\<forall>p\<in>set (split ?v (lit '' and '')). \<exists>c\<in>set p. \<not> isspace c"
    unfolding split_example by (simp add: lit_def isspace_def)
  have val: "author_list (map surname (split ?v (lit '' and ''))) = lit ''Doe, Roe & Lee''"
    unfolding split_example by (simp add: surname_def comma_def str_eval)
  have "?e (lit ''author'') = Some ?v" by simp
  with get_author_string_spec [of ?e] hyp val
  have "get_author_string ?e = Inr (lit ''Doe, Roe & Lee'')" by simp
  moreover have "get_author_string ?e' = Inr (lit ''Doe & Roe'')"
  proof -
    have pieces: "split ?v' (lit '' and '') = [lit ''Doe, Jane'', lit ''Roe, Richard'']"
      by (simp add: str_eval)
    have "\<forall>p\<in>set (split ?v' (lit '' and '')). \<exists>c\<in>set p. \<not> isspace c"
      unfolding pieces by (simp add: lit_def isspace_def)
    moreover have "author_list (map surname (split ?v' (lit '' and ''))) = lit ''Doe & Roe''"
      unfolding pieces by (simp add: surname_def comma_def str_eval)
    moreover have "?e' (lit ''author'') = Some ?v'" by simp
    ultimately show ?thesis
      using get_author_string_spec [of ?e'] by simp
  qed
  moreover from get_author_string_spec [of Map.empty]
  have "get_author_string Map.empty = Inr []" by simp
  ultimately show ?thesis by simp
qed

text \<open>
  C3 as stated fails in two places. The surname before a comma is trimmed: the author
  \<open>"Doe , Jane"\<close> gives \<open>"Doe"\<close>, where the text before the first comma is \<open>"Doe "\<close>.
  And an author field is not always mapped to a string: the empty author field raises.
\<close>

theorem get_author_string_counterexample:
  "get_author_string (Map.empty(lit ''author'' \<mapsto> lit ''Doe , Jane'')) = Inr (lit ''Doe'')
   \<and> author_list (map surname_claimed (split (lit ''Doe , Jane'') (lit '' and ''))) = lit ''Doe ''
   \<and> lit ''Doe'' \<noteq> lit ''Doe ''
   \<and> get_author_string (Map.empty(lit ''author'' \<mapsto> [])) = Inl IndexError"
  by (simp add: get_author_string_def author_last_def surname_claimed_def comma_def
      index_first_def index_last_def str_eval)

text \<open>
  C10: \<open>get_author_string\<close> does not return a string for every author field. Whenever a
  piece between the separators \<open>" and "\<close> is empty or all whitespace, \<open>parts[-1]\<close> of
  line 49 is taken of an empty list and the IndexError leaves the function.
\<close>

theorem get_author_string_blank_piece:
  assumes "entry (lit ''author'') = Some v"
      and "p \<in> set (split v (lit '' and ''))"
      and "\<forall>c\<in>set p. isspace c"
  shows "get_author_string entry = Inl IndexError"
  using assms format_authors_blank [OF assms(2) author_last_blank [OF assms(3)], of "[]"]
  by (simp add: get_author_string_def)

theorem get_author_string_blank_piece_witness:
  "get_author_string (Map.empty(lit ''author'' \<mapsto> lit ''Doe and  and Roe'')) = Inl IndexError"
proof -
  let ?v = "lit ''Doe and  and Roe''"
  have "[] \<in> set (split ?v (lit '' and ''))" by (simp add: str_eval)
  from get_author_string_blank_piece [of "Map.empty(lit ''author'' \<mapsto> ?v)" ?v "[]", OF _ this]
  show ?thesis by simp
qed

lemma endswith_single: "endswith s [c] \<longleftrightarrow> s \<noteq> [] \<and> last s = c"
  by (cases s rule: rev_cases) (auto simp: endswith_def)

lemma startswith_single_iff: "startswith s [c] \<longleftrightarrow> s \<noteq> [] \<and> hd s = c"
  by (cases s) (auto simp: startswith_def)

lemma strip_id:
  assumes "s \<noteq> []" "\<not> isspace (hd s)" "\<not> isspace (last s)"
  shows "strip s = s"
proof -
  have "dropWhile isspace s = s"
    using assms by (simp add: dropWhile_eq_self_iff)
  moreover have "dropWhile isspace (rev s) = rev s"
    using assms by (simp add: dropWhile_eq_self_iff hd_rev)
  ultimately show ?thesis by (simp add: strip_def)
qed

lemma lit_paren: "lit ''('' = [40]" "lit '')'' = [41]"
  by (simp_all add: lit_def)

lemma strip_parenthesised:
  assumes "startswith s (lit ''('')" "endswith s (lit '')'')"
  shows "strip s = s"
  using assms
  by (intro strip_id) (auto simp: lit_paren startswith_single_iff endswith_single isspace_def)

section \<open>Properties of format_bibtex_entry\<close>

text \<open>
  \<open>entry['note']\<close> of line 83 never raises, and the \<open>strip()\<close> there changes nothing: a
  note that passed the test of line 81 starts and ends with a parenthesis.
\<close>

lemma custom_note_of_eq:
  "custom_note_of entry =
     Inr (if startswith (get entry (lit ''note'') []) (lit ''('')
             \<and> endswith (get entry (lit ''note'') []) (lit '')'')
          then get entry (lit ''note'') [] else [])"
proof (cases "entry (lit ''note'')")
  case None
  then show ?thesis
    by (simp add: custom_note_of_def get_def lit_paren startswith_single_iff)
next
  case (Some n)
  then show ?thesis
    by (simp add: custom_note_of_def get_def item_def strip_parenthesised)
qed

lemma aux_links_append: "aux_links entry as html = html @ aux_links entry as []"
proof (induction as arbitrary: html)
  case Nil
  show ?case by simp
next
  case (Cons a as)
  show ?case
  proof (cases "entry (lit ''url_'' @ str a)")
    case None
    then show ?thesis by simp
  next
    case (Some u)
    then show ?thesis
      using Cons [of "html @ aux_link u (case entry (lit ''url_note_'' @ str a) of
          None \<Rightarrow> lit ''link '' @ str a | Some n \<Rightarrow> n)"]
        Cons [of "aux_link u (case entry (lit ''url_note_'' @ str a) of
          None \<Rightarrow> lit ''link '' @ str a | Some n \<Rightarrow> n)"]
      by simp
  qed
qed

text \<open>
  The fragment of a record whose author string is defined: the head with the title link,
  the auxiliary links, the note sentence, the venue sentence, the closing tags.
\<close>

lemma format_bibtex_entry_shape:
  assumes "get_author_string entry = Inr author_str"
  shows "format_bibtex_entry entry =
     Inr (html_head author_str (get entry (lit ''year'') (lit ''n.d.'')) (link_of entry)
            (get entry (lit ''title'') (lit ''Unknown title''))
          @ aux_links entry [2..<31] []
          @ note_sentence entry
          @ venue_sentence entry
          @ lit ''</p>'' @ nl @ lit ''</li>'')"
proof -
  let ?head = "html_head author_str (get entry (lit ''year'') (lit ''n.d.'')) (link_of entry)
            (get entry (lit ''title'') (lit ''Unknown title''))"
  have "aux_links entry [2..<31] ?head = ?head @ aux_links entry [2..<31] []"
    by (rule aux_links_append)
  moreover have "startswith (get entry (lit ''note'') []) (lit ''('') \<Longrightarrow> get entry (lit ''note'') [] \<noteq> []"
    by (auto simp: lit_paren startswith_single_iff)
  ultimately show ?thesis
    using assms
    by (simp add: format_bibtex_entry_def custom_note_of_eq note_sentence_def venue_sentence_def
        Let_def)
qed

lemma format_bibtex_entry_error:
  "get_author_string entry = Inl err \<Longrightarrow> format_bibtex_entry entry = Inl err"
  by (simp add: format_bibtex_entry_def)

lemmas fmt_eval = format_bibtex_entry_def get_author_string_def link_of_def custom_note_of_def
  container_of_def volume_of_def pages_of_def html_head_def aux_link_def get_def item_def

text \<open>
  C4 as stated fails: the test of line 81 is made on the note field as it stands, not on
  its trimmed text. The note \<open>" (AlexNet)"\<close>, whose trimmed text starts and ends with a
  parenthesis, gives no custom note, and the fragment has a bare period after the links.
\<close>

theorem note_counterexample:
  "custom_note_of (Map.empty(lit ''note'' \<mapsto> lit '' (AlexNet)'')) = Inr []
   \<and> startswith (strip (lit '' (AlexNet)'')) (lit ''('')
   \<and> endswith (strip (lit '' (AlexNet)'')) (lit '')'')
   \<and> format_bibtex_entry (Map.empty(lit ''note'' \<mapsto> lit '' (AlexNet)''))
     = Inr (html_head [] (lit ''n.d.'') (lit ''#'') (lit ''Unknown title'') @ lit ''.''
            @ lit ''</p>'' @ nl @ lit ''</li>'')
   \<and> note_sentence_claimed (Map.empty(lit ''note'' \<mapsto> lit '' (AlexNet)''))
     = lit '' <strong>(AlexNet)</strong>.''"
  by (simp add: fmt_eval note_sentence_claimed_def str_eval str.simps)

text \<open>
  C4, as amended. The custom note is populated exactly when the note field as it stands
  (untrimmed) starts with an opening and ends with a closing parenthesis, and is then the
  note field itself. When it is populated, the fragment has it emphasized-strong right
  after the links and followed by a period; otherwise a bare period follows the links.
\<close>

theorem note_spec:
  "custom_note_of entry =
     Inr (if startswith (get entry (lit ''note'') []) (lit ''('')
             \<and> endswith (get entry (lit ''note'') []) (lit '')'')
          then get entry (lit ''note'') [] else [])
   \<and> (\<forall>author_str. get_author_string entry = Inr author_str \<longrightarrow>
        format_bibtex_entry entry =
          Inr (front entry author_str
               @ (if startswith (get entry (lit ''note'') []) (lit ''('')
                     \<and> endswith (get entry (lit ''note'') []) (lit '')'')
                  then lit '' <strong>'' @ get entry (lit ''note'') [] @ lit ''</strong>.''
                  else lit ''.'')
               @ venue_sentence entry @ lit ''</p>'' @ nl @ lit ''</li>''))"
  by (simp add: custom_note_of_eq format_bibtex_entry_shape front_def note_sentence_def Let_def)

text \<open>
  The two notes of the specification: \<open>"(AlexNet)"\<close> is rendered, \<open>"see errata"\<close> is not.
\<close>

theorem note_spec_witness:
  "format_bibtex_entry (Map.empty(lit ''note'' \<mapsto> lit ''(AlexNet)''))
     = Inr (front (Map.empty(lit ''note'' \<mapsto> lit ''(AlexNet)'')) []
            @ lit '' <strong>(AlexNet)</strong>.'' @ lit ''</p>'' @ nl @ lit ''</li>'')
   \<and> format_bibtex_entry (Map.empty(lit ''note'' \<mapsto> lit ''see errata''))
     = Inr (front (Map.empty(lit ''note'' \<mapsto> lit ''see errata'')) []
            @ lit ''.'' @ lit ''</p>'' @ nl @ lit ''</li>'')"
proof -
  let ?e1 = "Map.empty(lit ''note'' \<mapsto> lit ''(AlexNet)'')"
  let ?e2 = "Map.empty(lit ''note'' \<mapsto> lit ''see errata'')"
  have a1: "get_author_string ?e1 = Inr []" and a2: "get_author_string ?e2 = Inr []"
    by (simp_all add: get_author_string_def lit_def)
  have v1: "venue_sentence ?e1 = []" and v2: "venue_sentence ?e2 = []"
    by (simp_all add: venue_sentence_def container_of_def volume_of_def pages_of_def lit_def)
  have n1: "get ?e1 (lit ''note'') [] = lit ''(AlexNet)''"
    and n2: "get ?e2 (lit ''note'') [] = lit ''see errata''"
    by (simp_all add: get_def)
  from note_spec [of ?e1] a1 have
    "format_bibtex_entry ?e1 = Inr (front ?e1 [] @ lit '' <strong>(AlexNet)</strong>.''
       @ lit ''</p>'' @ nl @ lit ''</li>'')"
    unfolding n1 v1 by (simp add: str_eval)
  moreover from note_spec [of ?e2] a2 have
    "format_bibtex_entry ?e2 = Inr (front ?e2 [] @ lit ''.'' @ lit ''</p>'' @ nl @ lit ''</li>'')"
    unfolding n2 v2 by (simp add: str_eval)
  ultimately show ?thesis by simp
qed


text \<open>
  C2 as stated fails in two places. A doi field that itself starts with \<open>http\<close> is used
  as it is, not appended to \<open>https://doi.org/\<close>. And a url field that is \<open>"#"\<close> is kept,
  also when there is a doi field.
\<close>

theorem link_of_counterexample:
  "link_of (Map.empty(lit ''doi'' \<mapsto> lit ''https://doi.org/10.1/x'')) = lit ''https://doi.org/10.1/x''
   \<and> primary_link_claimed (Map.empty(lit ''doi'' \<mapsto> lit ''https://doi.org/10.1/x''))
       = lit ''https://doi.org/https://doi.org/10.1/x''
   \<and> link_of (Map.empty(lit ''url'' \<mapsto> lit ''#'', lit ''doi'' \<mapsto> lit ''10.1/x'')) = lit ''#''
   \<and> primary_link_claimed (Map.empty(lit ''url'' \<mapsto> lit ''#'', lit ''doi'' \<mapsto> lit ''10.1/x''))
       = lit ''https://doi.org/10.1/x''"
  by (simp add: link_of_def primary_link_claimed_def get_def lit_def startswith_def)

text \<open>
  C2, as amended. The candidate is the url field when present, else the doi field when
  present, else the placeholder \<open>"#"\<close>. A candidate that is \<open>"#"\<close> or starts with \<open>http\<close> or
  \<open>ftp\<close> is the primary link; otherwise the primary link is \<open>https://doi.org/<doi>\<close> when
  there is a doi field and \<open>"#"\<close> when there is none. The primary link is the target of
  the title link of the fragment.
\<close>

theorem link_of_spec:
  "(\<forall>url. entry (lit ''url'') = Some url \<and> is_link url \<longrightarrow> link_of entry = url)
   \<and> (\<forall>doi. entry (lit ''url'') = None \<and> entry (lit ''doi'') = Some doi \<and> is_link doi
          \<longrightarrow> link_of entry = doi)
   \<and> (\<forall>doi. (\<forall>url. entry (lit ''url'') = Some url \<longrightarrow> \<not> is_link url)
            \<and> entry (lit ''doi'') = Some doi \<and> (entry (lit ''url'') = None \<longrightarrow> \<not> is_link doi)
          \<longrightarrow> link_of entry = lit ''https://doi.org/'' @ doi)
   \<and> ((\<forall>url. entry (lit ''url'') = Some url \<longrightarrow> \<not> is_link url) \<and> entry (lit ''doi'') = None
          \<longrightarrow> link_of entry = lit ''#'')
   \<and> (\<forall>author_str. get_author_string entry = Inr author_str \<longrightarrow>
        (\<exists>rest. format_bibtex_entry entry =
           Inr (html_head author_str (get entry (lit ''year'') (lit ''n.d.'')) (link_of entry)
                  (get entry (lit ''title'') (lit ''Unknown title'')) @ rest)))"
proof (intro conjI allI impI)
  fix url
  assume "entry (lit ''url'') = Some url \<and> is_link url"
  then show "link_of entry = url"
    by (auto simp: link_of_def get_def is_link_def)
next
  fix doi
  assume "entry (lit ''url'') = None \<and> entry (lit ''doi'') = Some doi \<and> is_link doi"
  then show "link_of entry = doi"
    by (auto simp: link_of_def get_def is_link_def)
next
  fix doi
  assume "(\<forall>url. entry (lit ''url'') = Some url \<longrightarrow> \<not> is_link url)
            \<and> entry (lit ''doi'') = Some doi \<and> (entry (lit ''url'') = None \<longrightarrow> \<not> is_link doi)"
  then show "link_of entry = lit ''https://doi.org/'' @ doi"
    by (cases "entry (lit ''url'')") (auto simp: link_of_def get_def is_link_def)
next
  assume "(\<forall>url. entry (lit ''url'') = Some url \<longrightarrow> \<not> is_link url) \<and> entry (lit ''doi'') = None"
  then show "link_of entry = lit ''#''"
    by (cases "entry (lit ''url'')") (auto simp: link_of_def get_def is_link_def)
next
  fix author_str
  assume "get_author_string entry = Inr author_str"
  then show "\<exists>rest. format_bibtex_entry entry =
           Inr (html_head author_str (get entry (lit ''year'') (lit ''n.d.'')) (link_of entry)
                  (get entry (lit ''title'') (lit ''Unknown title'')) @ rest)"
    by (simp add: format_bibtex_entry_shape)
qed

text \<open>
  The four records of the specification, and a doi field that is a link already.
\<close>

theorem link_of_spec_witness:
  "link_of (Map.empty(lit ''url'' \<mapsto> lit ''https://x.org/p'', lit ''doi'' \<mapsto> lit ''10.1/x''))
     = lit ''https://x.org/p''
   \<and> link_of (Map.empty(lit ''doi'' \<mapsto> lit ''10.1/x'')) = lit ''https://doi.org/10.1/x''
   \<and> link_of Map.empty = lit ''#''
   \<and> link_of (Map.empty(lit ''url'' \<mapsto> lit ''not-a-link'')) = lit ''#''
   \<and> link_of (Map.empty(lit ''doi'' \<mapsto> lit ''ftp://d/1'')) = lit ''ftp://d/1''"
proof -
  let ?e1 = "Map.empty(lit ''url'' \<mapsto> lit ''https://x.org/p'', lit ''doi'' \<mapsto> lit ''10.1/x'')"
  let ?e2 = "Map.empty(lit ''doi'' \<mapsto> lit ''10.1/x'')"
  let ?e4 = "Map.empty(lit ''url'' \<mapsto> lit ''not-a-link'')"
  let ?e5 = "Map.empty(lit ''doi'' \<mapsto> lit ''ftp://d/1'')"
  have "link_of ?e1 = lit ''https://x.org/p''"
    using link_of_spec [of ?e1] by (simp add: is_link_def lit_def startswith_def)
  moreover have "link_of ?e2 = lit ''https://doi.org/10.1/x''"
    using link_of_spec [of ?e2] by (simp add: is_link_def lit_def startswith_def)
  moreover have "link_of Map.empty = lit ''#''"
    using link_of_spec [of Map.empty] by simp
  moreover have "link_of ?e4 = lit ''#''"
    using link_of_spec [of ?e4] by (simp add: is_link_def lit_def startswith_def)
  moreover have "link_of ?e5 = lit ''ftp://d/1''"
    using link_of_spec [of ?e5] by (simp add: is_link_def lit_def startswith_def)
  ultimately show ?thesis by simp
qed

lemma lit_dashes: "lit ''--'' = [45, 45]"
  by (simp add: lit_def)

lemma replace_en_dashes: "replace s (lit ''--'') en_dash = en_dashes s"
  by (induction s rule: en_dashes.induct) (auto simp: lit_dashes en_dash_def startswith_def)

text \<open>
  C7. The container is the journal, else \<open>In\<close> and the booktitle, else the publisher, each
  emphasized, and is empty when none of the three fields is present; a present volume
  gives \<open>", Vol. <volume>"\<close>; a present pages field gives \<open>", pp. <pages>"\<close> with every
  double hyphen replaced by an en-dash; and the fragment has the venue sentence, after
  the note sentence, if and only if one of container, volume and pages is not empty.
\<close>

theorem venue_spec:
  "(\<forall>journal. entry (lit ''journal'') = Some journal
        \<longrightarrow> container_of entry = lit ''<em>'' @ journal @ lit ''</em>'')
   \<and> (\<forall>booktitle. entry (lit ''journal'') = None \<and> entry (lit ''booktitle'') = Some booktitle
        \<longrightarrow> container_of entry = lit ''<em>In '' @ booktitle @ lit ''</em>'')
   \<and> (\<forall>publisher. entry (lit ''journal'') = None \<and> entry (lit ''booktitle'') = None
          \<and> entry (lit ''publisher'') = Some publisher
        \<longrightarrow> container_of entry = lit ''<em>'' @ publisher @ lit ''</em>'')
   \<and> (entry (lit ''journal'') = None \<and> entry (lit ''booktitle'') = None
          \<and> entry (lit ''publisher'') = None
        \<longrightarrow> container_of entry = [])
   \<and> (\<forall>volume. entry (lit ''volume'') = Some volume
        \<longrightarrow> volume_of entry = lit '', Vol. '' @ volume)
   \<and> (entry (lit ''volume'') = None \<longrightarrow> volume_of entry = [])
   \<and> (\<forall>pages. entry (lit ''pages'') = Some pages
        \<longrightarrow> pages_of entry = lit '', pp. '' @ en_dashes pages)
   \<and> (entry (lit ''pages'') = None \<longrightarrow> pages_of entry = [])
   \<and> (\<forall>author_str. get_author_string entry = Inr author_str \<longrightarrow>
        format_bibtex_entry entry =
          Inr (front entry author_str @ note_sentence entry
               @ (if container_of entry \<noteq> [] \<or> volume_of entry \<noteq> [] \<or> pages_of entry \<noteq> []
                  then lit '' '' @ container_of entry @ volume_of entry @ pages_of entry @ lit ''.''
                  else [])
               @ lit ''</p>'' @ nl @ lit ''</li>''))"
  by (simp add: container_of_def volume_of_def pages_of_def replace_en_dashes
      format_bibtex_entry_shape front_def venue_sentence_def)

text \<open>
  Pages \<open>"100--110"\<close>, the three priorities of the container, a record with a volume
  only, and a record with no field at all, which has no venue sentence.
\<close>

theorem venue_spec_witness:
  "pages_of (Map.empty(lit ''pages'' \<mapsto> lit ''100--110'')) = lit '', pp. 100'' @ en_dash @ lit ''110''
   \<and> container_of (Map.empty(lit ''journal'' \<mapsto> lit ''J'', lit ''booktitle'' \<mapsto> lit ''B''))
       = lit ''<em>J</em>''
   \<and> container_of (Map.empty(lit ''booktitle'' \<mapsto> lit ''B'', lit ''publisher'' \<mapsto> lit ''P''))
       = lit ''<em>In B</em>''
   \<and> container_of (Map.empty(lit ''publisher'' \<mapsto> lit ''P'')) = lit ''<em>P</em>''
   \<and> volume_of (Map.empty(lit ''volume'' \<mapsto> lit ''86'')) = lit '', Vol. 86''
   \<and> format_bibtex_entry (Map.empty(lit ''volume'' \<mapsto> lit ''86''))
       = Inr (front (Map.empty(lit ''volume'' \<mapsto> lit ''86'')) [] @ lit ''.'' @ lit '' , Vol. 86.''
              @ lit ''</p>'' @ nl @ lit ''</li>'')
   \<and> format_bibtex_entry Map.empty
       = Inr (front Map.empty [] @ lit ''.'' @ lit ''</p>'' @ nl @ lit ''</li>'')"
proof -
  let ?p = "Map.empty(lit ''pages'' \<mapsto> lit ''100--110'')"
  let ?j = "Map.empty(lit ''journal'' \<mapsto> lit ''J'', lit ''booktitle'' \<mapsto> lit ''B'')"
  let ?b = "Map.empty(lit ''booktitle'' \<mapsto> lit ''B'', lit ''publisher'' \<mapsto> lit ''P'')"
  let ?q = "Map.empty(lit ''publisher'' \<mapsto> lit ''P'')"
  let ?v = "Map.empty(lit ''volume'' \<mapsto> lit ''86'')"
  have "pages_of ?p = lit '', pp. 100'' @ en_dash @ lit ''110''"
    using venue_spec [of ?p] by (simp add: lit_def en_dash_def)
  moreover have "container_of ?j = lit ''<em>J</em>''"
    using venue_spec [of ?j] by (simp add: lit_def)
  moreover have "container_of ?b = lit ''<em>In B</em>''"
    using venue_spec [of ?b] by (simp add: lit_def)
  moreover have "container_of ?q = lit ''<em>P</em>''"
    using venue_spec [of ?q] by (simp add: lit_def)
  moreover have v: "volume_of ?v = lit '', Vol. 86''"
    using venue_spec [of ?v] by (simp add: lit_def)
  moreover have "format_bibtex_entry ?v
       = Inr (front ?v [] @ lit ''.'' @ lit '' , Vol. 86.'' @ lit ''</p>'' @ nl @ lit ''</li>'')"
  proof -
    have "get_author_string ?v = Inr []" by (simp add: get_author_string_def lit_def)
    moreover have "note_sentence ?v = lit ''.''"
      by (simp add: note_sentence_def get_def lit_def startswith_def)
    moreover have "container_of ?v = []" "pages_of ?v = []"
      by (simp_all add: container_of_def pages_of_def lit_def)
    ultimately show ?thesis
      using venue_spec [of ?v] v by (simp add: lit_def)
  qed
  moreover have "format_bibtex_entry Map.empty
       = Inr (front Map.empty [] @ lit ''.'' @ lit ''</p>'' @ nl @ lit ''</li>'')"
  proof -
    have "get_author_string Map.empty = Inr []" by (simp add: get_author_string_def)
    moreover have "note_sentence Map.empty = lit ''.''"
      by (simp add: note_sentence_def get_def lit_def startswith_def)
    moreover have "container_of Map.empty = []" "pages_of Map.empty = []" "volume_of Map.empty = []"
      by (simp_all add: container_of_def pages_of_def volume_of_def)
    ultimately show ?thesis
      using venue_spec [of Map.empty] by simp
  qed
  ultimately show ?thesis by simp
qed

text \<open>Line 118 character by character.\<close>

lemma aux_link_text:
  "aux_link url label =
     lit '' <a href='' @ lit [CHR 0x22] @ url @ lit [CHR 0x22]
     @ lit '' class='' @ lit [CHR 0x22] @ lit ''external'' @ lit [CHR 0x22]
     @ lit ''>['' @ label @ lit '']</a>''"
  by (simp add: aux_link_def dq_def lit_def)

text \<open>
  The loop of lines 111-118 renders the indices before the first absent \<open>url_<n>\<close>, in
  order.
\<close>

lemma aux_links_takeWhile:
  "aux_links entry as [] =
     concat (map (aux_rendered entry) (takeWhile (\<lambda>n. entry (lit ''url_'' @ str n) \<noteq> None) as))"
proof (induction as)
  case Nil
  show ?case by simp
next
  case (Cons a as)
  show ?case
  proof (cases "entry (lit ''url_'' @ str a)")
    case None
    then show ?thesis by simp
  next
    case (Some u)
    then show ?thesis
      using Cons aux_links_append [of entry as "aux_link u (aux_label entry a)"]
      by (simp add: aux_rendered_def aux_label_def get_def aux_link_text)
  qed
qed

lemma takeWhile_gap: "\<not> P n \<Longrightarrow> takeWhile P (xs @ n # ys) = takeWhile P xs"
  by (induction xs) auto

lemma range_split:
  assumes "2 \<le> n" "n \<le> 30"
  shows "[2..<31] = [2..<n] @ n # [Suc n..<31]"
proof -
  have "[2..<n + (31 - n)] = [2..<n] @ [n..<n + (31 - n)]"
    using assms(1) by (rule upt_add_eq_append)
  moreover have "n + (31 - n) = 31" using assms(2) by simp
  ultimately have "[2..<31] = [2..<n] @ [n..<31]" by simp
  then show ?thesis
    using assms(2) by (simp add: upt_conv_Cons)
qed

lemma aux_indices_gap:
  assumes "2 \<le> n" "n \<le> 30" "entry (lit ''url_'' @ str n) = None"
  shows "aux_indices entry = takeWhile (\<lambda>k. entry (lit ''url_'' @ str k) \<noteq> None) [2..<n]"
  unfolding aux_indices_def range_split [OF assms(1,2)]
  using assms(3) by (simp add: takeWhile_gap)


lemma aux_links_gap:
  assumes "2 \<le> n" "n \<le> 30"
      and "entry (lit ''url_'' @ str n) = None" "entry' (lit ''url_'' @ str n) = None"
      and agree: "\<forall>k. 2 \<le> k \<and> k < n \<longrightarrow>
             entry' (lit ''url_'' @ str k) = entry (lit ''url_'' @ str k)
             \<and> entry' (lit ''url_note_'' @ str k) = entry (lit ''url_note_'' @ str k)"
  shows "aux_links entry' [2..<31] [] = aux_links entry [2..<31] []"
proof -
  have url: "entry' (lit ''url_'' @ str k) = entry (lit ''url_'' @ str k)"
    and lbl: "entry' (lit ''url_note_'' @ str k) = entry (lit ''url_note_'' @ str k)"
    if "k \<in> set [2..<n]" for k
    using agree that by simp_all
  have "takeWhile (\<lambda>k. entry' (lit ''url_'' @ str k) \<noteq> None) [2..<n]
      = takeWhile (\<lambda>k. entry (lit ''url_'' @ str k) \<noteq> None) [2..<n]"
    by (rule takeWhile_cong) (simp_all only: url)
  then have idx: "aux_indices entry' = aux_indices entry"
    by (simp only: aux_indices_gap [of n entry, OF assms(1,2,3)]
        aux_indices_gap [of n entry', OF assms(1,2,4)])
  have "k \<in> set [2..<n]" if "k \<in> set (aux_indices entry)" for k
    using that unfolding aux_indices_gap [of n entry, OF assms(1,2,3)]
    by (rule set_takeWhileD [THEN conjunct1])
  then have "aux_rendered entry' k = aux_rendered entry k" if "k \<in> set (aux_indices entry)" for k
    using that by (simp only: aux_rendered_def aux_label_def get_def url lbl)
  then have "map (aux_rendered entry') (aux_indices entry) = map (aux_rendered entry) (aux_indices entry)"
    by (rule map_cong [OF refl])
  with idx show ?thesis
    by (simp only: aux_links_takeWhile aux_indices_def [symmetric])
qed

lemma length_aux_indices: "length (aux_indices entry) \<le> 29"
proof -
  have "length (aux_indices entry) \<le> length [2..<31::nat]"
    unfolding aux_indices_def by (rule length_takeWhile_le)
  then show ?thesis by simp
qed


text \<open>
  C5. The auxiliary links are those of the indices 2, 3, ... up to the first index in
  2..30 whose \<open>url_<n>\<close> is absent, each rendered as the inline link
  \<open> <a href="<url_n>" class="external">[<label>]</a>\<close> with the label \<open>url_note_<n>\<close> or, by
  default, \<open>link <n>\<close>; there are at most 29 of them; the fields of the indices after a gap
  do not matter (two records that have the same gap and the same fields before it give
  the same links); and the fragment has the links right after the title link.
\<close>

theorem aux_links_spec:
  "aux_links entry [2..<31] [] = concat (map (aux_rendered entry) (aux_indices entry))
   \<and> length (aux_indices entry) \<le> 29
   \<and> (\<forall>n entry'. 2 \<le> n \<and> n \<le> 30
         \<and> entry (lit ''url_'' @ str n) = None \<and> entry' (lit ''url_'' @ str n) = None
         \<and> (\<forall>k. 2 \<le> k \<and> k < n \<longrightarrow>
               entry' (lit ''url_'' @ str k) = entry (lit ''url_'' @ str k)
               \<and> entry' (lit ''url_note_'' @ str k) = entry (lit ''url_note_'' @ str k))
       \<longrightarrow> aux_links entry' [2..<31] [] = aux_links entry [2..<31] [])
   \<and> (\<forall>author_str. get_author_string entry = Inr author_str \<longrightarrow>
        format_bibtex_entry entry =
          Inr (html_head author_str (get entry (lit ''year'') (lit ''n.d.'')) (link_of entry)
                 (get entry (lit ''title'') (lit ''Unknown title''))
               @ concat (map (aux_rendered entry) (aux_indices entry))
               @ note_sentence entry @ venue_sentence entry @ lit ''</p>'' @ nl @ lit ''</li>''))"
proof (intro conjI allI impI)
  show "aux_links entry [2..<31] [] = concat (map (aux_rendered entry) (aux_indices entry))"
    by (simp add: aux_links_takeWhile aux_indices_def)
  show "length (aux_indices entry) \<le> 29"
    by (rule length_aux_indices)
next
  fix n entry'
  assume "2 \<le> n \<and> n \<le> 30
         \<and> entry (lit ''url_'' @ str n) = None \<and> entry' (lit ''url_'' @ str n) = None
         \<and> (\<forall>k. 2 \<le> k \<and> k < n \<longrightarrow>
               entry' (lit ''url_'' @ str k) = entry (lit ''url_'' @ str k)
               \<and> entry' (lit ''url_note_'' @ str k) = entry (lit ''url_note_'' @ str k))"
  then show "aux_links entry' [2..<31] [] = aux_links entry [2..<31] []"
    by (intro aux_links_gap [of n]) auto
next
  fix author_str
  assume "get_author_string entry = Inr author_str"
  then show "format_bibtex_entry entry =
          Inr (html_head author_str (get entry (lit ''year'') (lit ''n.d.'')) (link_of entry)
                 (get entry (lit ''title'') (lit ''Unknown title''))
               @ concat (map (aux_rendered entry) (aux_indices entry))
               @ note_sentence entry @ venue_sentence entry @ lit ''</p>'' @ nl @ lit ''</li>'')"
    by (simp add: format_bibtex_entry_shape aux_links_takeWhile aux_indices_def)
qed

lemma str_digits: "str 2 = [50]" "str 3 = [51]" "str 4 = [52]"
  by (simp_all add: str.simps)

text \<open>
  A record with \<open>url_2\<close> and \<open>url_4\<close> but no \<open>url_3\<close> gives exactly one link, that of index
  2 with the default label \<open>link 2\<close>, written out here with the whole fragment of the
  record; a supplied \<open>url_note_2\<close> replaces the label.
\<close>

theorem aux_links_spec_witness:
  "aux_links (Map.empty(lit ''url_2'' \<mapsto> lit ''u2'', lit ''url_4'' \<mapsto> lit ''u4'')) [2..<31] []
     = lit '' <a href='' @ lit [CHR 0x22] @ lit ''u2'' @ lit [CHR 0x22] @ lit '' class=''
       @ lit [CHR 0x22] @ lit ''external'' @ lit [CHR 0x22] @ lit ''>[link 2]</a>''
   \<and> aux_indices (Map.empty(lit ''url_2'' \<mapsto> lit ''u2'', lit ''url_4'' \<mapsto> lit ''u4'')) = [2]
   \<and> format_bibtex_entry (Map.empty(lit ''url_2'' \<mapsto> lit ''u2'', lit ''url_4'' \<mapsto> lit ''u4''))
     = Inr (lit [CHR 0x0A] @ lit ''<li>'' @ lit [CHR 0x0A] @ lit ''<p> (n.d.).'' @ lit [CHR 0x0A]
            @ lit ''<br>'' @ lit [CHR 0x0A]
            @ lit ''<a href='' @ lit [CHR 0x22] @ lit ''#'' @ lit [CHR 0x22] @ lit '' class=''
            @ lit [CHR 0x22] @ lit ''external'' @ lit [CHR 0x22] @ lit ''>Unknown title</a>''
            @ lit '' <a href='' @ lit [CHR 0x22] @ lit ''u2'' @ lit [CHR 0x22] @ lit '' class=''
            @ lit [CHR 0x22] @ lit ''external'' @ lit [CHR 0x22] @ lit ''>[link 2]</a>''
            @ lit ''.</p>'' @ lit [CHR 0x0A] @ lit ''</li>'')
   \<and> aux_links (Map.empty(lit ''url_2'' \<mapsto> lit ''u2'', lit ''url_note_2'' \<mapsto> lit ''pdf'')) [2..<31] []
     = lit '' <a href='' @ lit [CHR 0x22] @ lit ''u2'' @ lit [CHR 0x22] @ lit '' class=''
       @ lit [CHR 0x22] @ lit ''external'' @ lit [CHR 0x22] @ lit ''>[pdf]</a>''"
proof -
  let ?e = "Map.empty(lit ''url_2'' \<mapsto> lit ''u2'')"
  let ?e' = "Map.empty(lit ''url_2'' \<mapsto> lit ''u2'', lit ''url_4'' \<mapsto> lit ''u4'')"
  let ?f = "Map.empty(lit ''url_2'' \<mapsto> lit ''u2'', lit ''url_note_2'' \<mapsto> lit ''pdf'')"
  let ?link = "lit '' <a href='' @ lit [CHR 0x22] @ lit ''u2'' @ lit [CHR 0x22] @ lit '' class=''
       @ lit [CHR 0x22] @ lit ''external'' @ lit [CHR 0x22] @ lit ''>[link 2]</a>''"
  have ie: "aux_indices ?e = [2]" and ie': "aux_indices ?e' = [2]" and "aux_indices ?f = [2]"
    by (simp_all add: aux_indices_def upt_rec [of 2 31] upt_rec [of 3 31] str_digits lit_def)
  then have e: "aux_links ?e [2..<31] [] = ?link"
    and f: "aux_links ?f [2..<31] []
     = lit '' <a href='' @ lit [CHR 0x22] @ lit ''u2'' @ lit [CHR 0x22] @ lit '' class=''
       @ lit [CHR 0x22] @ lit ''external'' @ lit [CHR 0x22] @ lit ''>[pdf]</a>''"
    using aux_links_spec [of ?e] aux_links_spec [of ?f]
    by (simp_all add: aux_rendered_def aux_label_def get_def str_digits lit_def)
  have "aux_links ?e' [2..<31] [] = aux_links ?e [2..<31] []"
  proof -
    have "\<forall>k. 2 \<le> k \<and> k < 3 \<longrightarrow>
               ?e' (lit ''url_'' @ str k) = ?e (lit ''url_'' @ str k)
               \<and> ?e' (lit ''url_note_'' @ str k) = ?e (lit ''url_note_'' @ str k)"
    proof (intro allI impI)
      fix k :: nat
      assume "2 \<le> k \<and> k < 3"
      then have "k = 2" by arith
      then show "?e' (lit ''url_'' @ str k) = ?e (lit ''url_'' @ str k)
               \<and> ?e' (lit ''url_note_'' @ str k) = ?e (lit ''url_note_'' @ str k)"
        by (simp add: str_digits lit_def)
    qed
    moreover have "?e (lit ''url_'' @ str 3) = None" "?e' (lit ''url_'' @ str 3) = None"
      by (simp_all add: str_digits lit_def)
    ultimately have "2 \<le> (3::nat) \<and> (3::nat) \<le> 30
         \<and> ?e (lit ''url_'' @ str 3) = None \<and> ?e' (lit ''url_'' @ str 3) = None
         \<and> (\<forall>k. 2 \<le> k \<and> k < 3 \<longrightarrow>
               ?e' (lit ''url_'' @ str k) = ?e (lit ''url_'' @ str k)
               \<and> ?e' (lit ''url_note_'' @ str k) = ?e (lit ''url_note_'' @ str k))"
      by simp
    with aux_links_spec [of ?e] show ?thesis by blast
  qed
  with e have e': "aux_links ?e' [2..<31] [] = ?link" by simp
  have "format_bibtex_entry ?e'
     = Inr (lit [CHR 0x0A] @ lit ''<li>'' @ lit [CHR 0x0A] @ lit ''<p> (n.d.).'' @ lit [CHR 0x0A]
            @ lit ''<br>'' @ lit [CHR 0x0A]
            @ lit ''<a href='' @ lit [CHR 0x22] @ lit ''#'' @ lit [CHR 0x22] @ lit '' class=''
            @ lit [CHR 0x22] @ lit ''external'' @ lit [CHR 0x22] @ lit ''>Unknown title</a>''
            @ ?link @ lit ''.</p>'' @ lit [CHR 0x0A] @ lit ''</li>'')"
  proof -
    have a: "get_author_string ?e' = Inr []" by (simp add: get_author_string_def lit_def)
    have c: "concat (map (aux_rendered ?e') (aux_indices ?e')) = ?link"
      using aux_links_spec [of ?e'] e' by simp
    have n: "note_sentence ?e' = lit ''.''"
      by (simp add: note_sentence_def get_def lit_def startswith_def)
    have v: "venue_sentence ?e' = []"
      by (simp add: venue_sentence_def container_of_def volume_of_def pages_of_def lit_def)
    have h: "html_head [] (get ?e' (lit ''year'') (lit ''n.d.'')) (link_of ?e')
        (get ?e' (lit ''title'') (lit ''Unknown title''))
      = lit [CHR 0x0A] @ lit ''<li>'' @ lit [CHR 0x0A] @ lit ''<p> (n.d.).'' @ lit [CHR 0x0A]
            @ lit ''<br>'' @ lit [CHR 0x0A]
            @ lit ''<a href='' @ lit [CHR 0x22] @ lit ''#'' @ lit [CHR 0x22] @ lit '' class=''
            @ lit [CHR 0x22] @ lit ''external'' @ lit [CHR 0x22] @ lit ''>Unknown title</a>''"
      by (simp add: html_head_def link_of_def get_def nl_def dq_def lit_def)
    from aux_links_spec [of ?e'] a have "format_bibtex_entry ?e' =
          Inr (html_head [] (get ?e' (lit ''year'') (lit ''n.d.'')) (link_of ?e')
                 (get ?e' (lit ''title'') (lit ''Unknown title''))
               @ concat (map (aux_rendered ?e') (aux_indices ?e'))
               @ note_sentence ?e' @ venue_sentence ?e' @ lit ''</p>'' @ nl @ lit ''</li>'')"
      by blast
    then show ?thesis
      unfolding h c n v by (simp add: nl_def lit_def)
  qed
  with e' ie' f show ?thesis by simp
qed

section \<open>Properties of the sort of convert_bib_to_html\<close>

text \<open>
  Two stable passes, the second by \<open>f\<close> over the result of the first by \<open>g\<close>, are one
  stable sort by the pair \<open>(f, g)\<close>.
\<close>

lemma insort_key_pair:
  fixes f :: "'a \<Rightarrow> 'b::linorder" and g :: "'a \<Rightarrow> 'c::linorder"
  shows "\<forall>w\<in>set ys. g z \<le> g w \<Longrightarrow> insort_key f z ys = insort_key (\<lambda>x. (f x, g x)) z ys"
  by (induction ys) (auto simp: less_eq_prod_def)

lemma sort_key_pair_sorted:
  fixes f :: "'a \<Rightarrow> 'b::linorder" and g :: "'a \<Rightarrow> 'c::linorder"
  shows "sorted (map g zs) \<Longrightarrow> sort_key f zs = sort_key (\<lambda>x. (f x, g x)) zs"
proof (induction zs)
  case Nil
  show ?case by simp
next
  case (Cons z zs)
  then have "\<forall>w\<in>set (sort_key (\<lambda>x. (f x, g x)) zs). g z \<le> g w" by simp
  then have "insort_key f z (sort_key (\<lambda>x. (f x, g x)) zs)
      = insort_key (\<lambda>x. (f x, g x)) z (sort_key (\<lambda>x. (f x, g x)) zs)"
    by (rule insort_key_pair)
  with Cons show ?case by simp
qed

lemma sort_key_pair_presorted:
  fixes f :: "'a \<Rightarrow> 'b::linorder" and g :: "'a \<Rightarrow> 'c::linorder"
  shows "sort_key (\<lambda>x. (f x, g x)) (sort_key g xs) = sort_key (\<lambda>x. (f x, g x)) xs"
proof (rule sym, rule properties_for_sort_key)
  let ?h = "\<lambda>x. (f x, g x)"
  show "mset (sort_key ?h (sort_key g xs)) = mset xs" by simp
  show "sorted (map ?h (sort_key ?h (sort_key g xs)))" by simp
  fix k
  have "filter (\<lambda>x. ?h k = ?h x) (sort_key ?h (sort_key g xs))
      = filter (\<lambda>x. ?h x = ?h k) (sort_key ?h (sort_key g xs))"
    by (rule filter_cong) auto
  also have "\<dots> = filter (\<lambda>x. ?h x = ?h k) (sort_key g xs)"
    by (rule sort_key_stable)
  also have "\<dots> = filter (\<lambda>x. f x = f k) (filter (\<lambda>x. g x = g k) (sort_key g xs))"
    by (simp add: conj_commute)
  also have "\<dots> = filter (\<lambda>x. f x = f k) (filter (\<lambda>x. g x = g k) xs)"
    by (simp only: sort_key_stable)
  also have "\<dots> = filter (\<lambda>x. ?h k = ?h x) xs"
    by (auto intro: filter_cong)
  finally show "filter (\<lambda>x. ?h k = ?h x) (sort_key ?h (sort_key g xs)) = filter (\<lambda>x. ?h k = ?h x) xs" .
qed

lemma sort_key_two_pass:
  fixes f :: "'a \<Rightarrow> 'b::linorder" and g :: "'a \<Rightarrow> 'c::linorder"
  shows "sort_key f (sort_key g xs) = sort_key (\<lambda>x. (f x, g x)) xs"
proof -
  have "sort_key f (sort_key g xs) = sort_key (\<lambda>x. (f x, g x)) (sort_key g xs)"
    by (rule sort_key_pair_sorted) simp
  then show ?thesis by (simp only: sort_key_pair_presorted)
qed


text \<open>
  Sorting the elements decorated with their keys is \<^const>\<open>sort_key\<close>.
\<close>

lemma insort_key_decorated:
  "\<forall>p\<in>set ps. fst p = f (snd p) \<Longrightarrow>
     map snd (insort_key fst (f x, x) ps) = insort_key f x (map snd ps)"
  by (induction ps) auto

lemma sort_key_decorated: "map snd (sort_key fst (zip (map f xs) xs)) = sort_key f xs"
proof (induction xs)
  case Nil
  show ?case by simp
next
  case (Cons x xs)
  have "\<forall>p\<in>set (sort_key fst (zip (map f xs) xs)). fst p = f (snd p)"
    by (auto simp: in_set_zip)
  then show ?case
    using Cons by (simp add: insort_key_decorated)
qed

lemma keys_of_Inr: "keys_of key xs = Inr ks \<Longrightarrow> ks = map (\<lambda>x. projr (key x)) xs"
  by (induction xs arbitrary: ks) (auto split: sum.splits)

lemma keys_of_all: "keys_of key xs = Inr ks \<Longrightarrow> x \<in> set xs \<Longrightarrow> key x = Inr (projr (key x))"
  by (induction xs arbitrary: ks) (auto split: sum.splits)

lemma sorted_key_Inr:
  assumes "keys_of key xs = Inr ks"
  shows "sorted_key key xs = Inr (sort_key (\<lambda>x. projr (key x)) xs)"
  using assms keys_of_Inr [OF assms] by (simp add: sorted_key_def sort_key_decorated)

lemma sorted_key_Inl: "keys_of key xs = Inl err \<Longrightarrow> sorted_key key xs = Inl err"
  by (simp add: sorted_key_def)

lemma keys_of_total: "keys_of (\<lambda>x. Inr (f x)) xs = Inr (map f xs)"
  by (induction xs) auto

lemma sorted_key_total: "sorted_key (\<lambda>x. Inr (f x)) xs = Inr (sort_key f xs)"
  using sorted_key_Inr [OF keys_of_total, of f xs] by simp

lemma keys_of_raises:
  assumes "x \<in> set xs" "key x = Inl e" "\<And>y e'. key y = Inl e' \<Longrightarrow> e' = e"
  shows "keys_of key xs = Inl e"
  using assms(1,2)
proof (induction xs)
  case Nil
  then show ?case by simp
next
  case (Cons y ys)
  show ?case
  proof (cases "key y")
    case (Inl e')
    with assms(3) show ?thesis by auto
  next
    case (Inr k)
    with Cons have "keys_of key ys = Inl e" by auto
    with Inr show ?thesis by simp
  qed
qed

lemma keys_of_composite:
  "keys_of (composite_key lower) xs =
     (case keys_of (surname_key lower) xs of
        Inl err \<Rightarrow> Inl err
      | Inr ks \<Rightarrow> Inr (map (\<lambda>x. (year_key x, projr (surname_key lower x))) xs))"
  by (induction xs) (auto simp: composite_key_def split: sum.splits)

lemma sort_entries_composite:
  "sort_entries lower entries = sorted_key (composite_key lower) entries"
proof (cases "keys_of (surname_key lower) entries")
  case (Inl err)
  then show ?thesis
    by (simp add: sort_entries_def sorted_key_Inl keys_of_composite)
next
  case (Inr ks)
  let ?sk = "\<lambda>x. projr (surname_key lower x)"
  have ck: "keys_of (composite_key lower) entries = Inr (map (\<lambda>x. (year_key x, ?sk x)) entries)"
    using Inr by (simp add: keys_of_composite)
  have "sorted_key (composite_key lower) entries
      = Inr (sort_key (\<lambda>x. (year_key x, ?sk x)) entries)"
    using ck by (simp add: sorted_key_def sort_key_decorated)
  moreover have "sort_entries lower entries = Inr (sort_key year_key (sort_key ?sk entries))"
    by (simp add: sort_entries_def sorted_key_Inr [OF Inr] sorted_key_total)
  ultimately show ?thesis by (simp add: sort_key_two_pass)
qed

lemma surname_key_error: "surname_key lower entry = Inl err \<Longrightarrow> err = IndexError"
  by (auto simp: surname_key_def index_first_def index_last_def split: sum.splits list.splits if_splits)

lemma surname_key_authorless:
  assumes "entry (lit ''author'') = None \<or> entry (lit ''author'') = Some []"
  shows "surname_key lower entry = Inl IndexError"
proof -
  from assms have "get entry (lit ''author'') [] = []" by (auto simp: get_def)
  then show ?thesis
    by (simp add: surname_key_def split_def index_first_def split_ws_def index_last_def)
qed


lemmas sort_eval = sort_entries_def sorted_key_def surname_key_def year_key_def get_def
  index_first_def index_last_def ascii_lower_def bib_def

text \<open>
  C1: the sort key of line 156 is not defined for a record without an author field, or
  with an empty one. The default \<open>''\<close> of \<open>entry.get('author', '')\<close> splits to no token at
  all, \<open>[-1]\<close> raises IndexError, and so does the sort of any record set that contains
  such a record; the exception leaves \<open>convert_bib_to_html\<close> uncaught.
\<close>

theorem sort_entries_authorless_raises:
  assumes "entry \<in> set entries"
      and "entry (lit ''author'') = None \<or> entry (lit ''author'') = Some []"
  shows "surname_key lower entry = Inl IndexError
         \<and> sort_entries lower entries = Inl IndexError
         \<and> fst (convert_bib_to_html lower (Inr entries) outcome input_file output_file w)
             = Some IndexError"
proof -
  have key: "surname_key lower entry = Inl IndexError"
    using assms(2) by (rule surname_key_authorless)
  have "keys_of (surname_key lower) entries = Inl IndexError"
    using keys_of_raises [of entry entries "surname_key lower" IndexError, OF assms(1) key]
      surname_key_error [of lower] by blast
  then have "sort_entries lower entries = Inl IndexError"
    by (simp add: sort_entries_def sorted_key_Inl)
  with key show ?thesis
    by (simp add: convert_bib_to_html_def Let_def)
qed

theorem sort_entries_authorless_raises_witness:
  "sort_entries ascii_lower [bib ''Zed'' ''1998'', Map.empty(lit ''title'' \<mapsto> lit ''T'')]
     = Inl IndexError
   \<and> fst (convert_bib_to_html ascii_lower
            (Inr [bib ''Zed'' ''1998'', Map.empty(lit ''title'' \<mapsto> lit ''T'')]) WriteOk
            (lit ''in.bib'') (lit ''out.html'') \<lparr>console = [], out_file = None\<rparr>)
       = Some IndexError"
proof -
  let ?e = "Map.empty(lit ''title'' \<mapsto> lit ''T'')"
  have "?e \<in> set [bib ''Zed'' ''1998'', ?e]" by simp
  moreover have "?e (lit ''author'') = None \<or> ?e (lit ''author'') = Some []"
    by (simp add: lit_def)
  ultimately show ?thesis
    using sort_entries_authorless_raises [of ?e "[bib ''Zed'' ''1998'', ?e]"] by blast
qed

text \<open>
  C6, as amended. The two passes are a single stable sort by the composite key (raw year
  string, lower-cased surname of the first author), year dominant, and raise when the
  single sort does. When the first pass succeeds, the result is ordered by the raw year
  strings compared as strings, and the records of one year keep the order of the first
  pass. (As strings, \<open>"900"\<close> comes after \<open>"1998"\<close> and \<open>"2012"\<close>, see the counterexample.)
\<close>

theorem sort_entries_spec:
  "sort_entries lower entries = sorted_key (composite_key lower) entries
   \<and> (\<forall>pass1. sorted_key (surname_key lower) entries = Inr pass1 \<longrightarrow>
        (\<exists>out. sort_entries lower entries = Inr out
           \<and> sorted (map year_key out)
           \<and> (\<forall>y. filter (\<lambda>e. year_key e = y) out = filter (\<lambda>e. year_key e = y) pass1)))"
proof (intro conjI allI impI)
  show "sort_entries lower entries = sorted_key (composite_key lower) entries"
    by (rule sort_entries_composite)
next
  fix pass1
  assume "sorted_key (surname_key lower) entries = Inr pass1"
  then have "sort_entries lower entries = Inr (sort_key year_key pass1)"
    by (simp add: sort_entries_def sorted_key_total)
  then show "\<exists>out. sort_entries lower entries = Inr out
           \<and> sorted (map year_key out)
           \<and> (\<forall>y. filter (\<lambda>e. year_key e = y) out = filter (\<lambda>e. year_key e = y) pass1)"
    by (simp add: sort_key_stable)
qed

lemma bib_keys:
  "surname_key ascii_lower (bib ''Zed'' ''1998'') = Inr (lit ''zed'')"
  "surname_key ascii_lower (bib ''Ann'' ''1998'') = Inr (lit ''ann'')"
  "surname_key ascii_lower (bib ''Lee'' ''1990'') = Inr (lit ''lee'')"
  "surname_key ascii_lower (bib ''Ann'' ''900'') = Inr (lit ''ann'')"
  "surname_key ascii_lower (bib ''Lee'' ''2012'') = Inr (lit ''lee'')"
  "year_key (bib ''Zed'' ''1998'') = lit ''1998''"
  "year_key (bib ''Ann'' ''1998'') = lit ''1998''"
  "year_key (bib ''Lee'' ''1990'') = lit ''1990''"
  "year_key (bib ''Ann'' ''900'') = lit ''900''"
  "year_key (bib ''Lee'' ''2012'') = lit ''2012''"
  by (simp_all add: sort_eval str_eval)

text \<open>
  The example of the specification: Zed 1998, Ann 1998, Lee 1990 come out as Lee 1990, Ann
  1998, Zed 1998.
\<close>

theorem sort_entries_spec_witness:
  "sort_entries ascii_lower [bib ''Zed'' ''1998'', bib ''Ann'' ''1998'', bib ''Lee'' ''1990'']
     = Inr [bib ''Lee'' ''1990'', bib ''Ann'' ''1998'', bib ''Zed'' ''1998'']"
proof -
  have "sorted_key (composite_key ascii_lower)
          [bib ''Zed'' ''1998'', bib ''Ann'' ''1998'', bib ''Lee'' ''1990'']
     = Inr [bib ''Lee'' ''1990'', bib ''Ann'' ''1998'', bib ''Zed'' ''1998'']"
    by (simp add: sorted_key_def composite_key_def bib_keys lit_def less_eq_prod_def)
  with sort_entries_spec [of ascii_lower
      "[bib ''Zed'' ''1998'', bib ''Ann'' ''1998'', bib ''Lee'' ''1990'']"]
  show ?thesis by simp
qed

text \<open>
  C6 as stated fails in its example of the string order: a record of the year \<open>"900"\<close>
  does not come before those of \<open>"1998"\<close> and \<open>"2012"\<close>, it comes after both.
\<close>

theorem sort_entries_counterexample:
  "sort_entries ascii_lower [bib ''Ann'' ''900'', bib ''Zed'' ''1998'', bib ''Lee'' ''2012'']
     = Inr [bib ''Zed'' ''1998'', bib ''Lee'' ''2012'', bib ''Ann'' ''900'']"
  by (simp add: sort_entries_def sorted_key_def bib_keys lit_def)

section \<open>Properties of convert_bib_to_html\<close>

text \<open>
  C8 as stated fails in its last part. When the write of line 194 fails after
  \<open>open(output_file, 'w')\<close> has succeeded, the \<open>except\<close> branch only prints: the output
  file is left as the failed write left it. Here the old content of the output file is
  gone and the first 15 characters of the document are in its place.
\<close>

theorem convert_failure_counterexample:
  "convert_bib_to_html ascii_lower (Inr []) (WriteFails 15 (lit ''No space left on device''))
     (lit ''bibliography.bib'') (lit ''references.html'')
     \<lparr>console = [], out_file = Some (lit ''old content'')\<rparr>
   = (None,
      \<lparr>console = [lit ''Reading the BibTeX file: bibliography.bib'',
                  lit ''Sorting entries by year...'',
                  lit ''ERROR in writing the HTML file: No space left on device''],
       out_file = Some (lit ''<!DOCTYPE html>'')\<rparr>)"
  by (simp add: convert_bib_to_html_def sort_entries_def sorted_key_def write_output_def
      print_def full_html_def lit_def nl_def dq_def)

text \<open>
  C8, as amended. When reading or parsing the input fails, the conversion prints the
  message that reports the cause, returns, and leaves the output file as it was (no other
  effect than the two printed lines). When the sort or the formatting raises, the
  exception leaves the function and the output file is as it was. When the output file
  cannot be opened, it is as it was, and the failure is reported. When the write fails
  after the file has been opened, the failure is reported and the output file holds what
  the failed write left: the characters of the document that reached it, in place of
  whatever the file held before.
\<close>

theorem convert_failure_spec:
  "(\<forall>err. loaded = Inl err \<longrightarrow>
      convert_bib_to_html lower loaded outcome input_file output_file w
        = (None, w\<lparr>console := console w @ [lit ''Reading the BibTeX file: '' @ input_file,
                                            read_error_message input_file err]\<rparr>))
   \<and> (\<forall>entries err. loaded = Inr entries \<and> sort_entries lower entries = Inl err \<longrightarrow>
         fst (convert_bib_to_html lower loaded outcome input_file output_file w) = Some err
         \<and> out_file (snd (convert_bib_to_html lower loaded outcome input_file output_file w))
             = out_file w)
   \<and> (\<forall>entries sorted_entries err.
         loaded = Inr entries \<and> sort_entries lower entries = Inr sorted_entries
         \<and> format_all sorted_entries [] = Inl err \<longrightarrow>
         fst (convert_bib_to_html lower loaded outcome input_file output_file w) = Some err
         \<and> out_file (snd (convert_bib_to_html lower loaded outcome input_file output_file w))
             = out_file w)
   \<and> (\<forall>cause. outcome = OpenFails cause \<longrightarrow>
         out_file (snd (convert_bib_to_html lower loaded outcome input_file output_file w))
           = out_file w)
   \<and> (\<forall>entries sorted_entries html_content cause.
         loaded = Inr entries \<and> sort_entries lower entries = Inr sorted_entries
         \<and> format_all sorted_entries [] = Inr html_content \<and> outcome = OpenFails cause \<longrightarrow>
         convert_bib_to_html lower loaded outcome input_file output_file w
           = (None, w\<lparr>console := console w @ [lit ''Reading the BibTeX file: '' @ input_file,
                                               lit ''Sorting entries by year...'',
                                               lit ''ERROR in writing the HTML file: '' @ cause]\<rparr>))
   \<and> (\<forall>entries sorted_entries html_content n cause.
         loaded = Inr entries \<and> sort_entries lower entries = Inr sorted_entries
         \<and> format_all sorted_entries [] = Inr html_content \<and> outcome = WriteFails n cause \<longrightarrow>
         convert_bib_to_html lower loaded outcome input_file output_file w
           = (None, w\<lparr>console := console w @ [lit ''Reading the BibTeX file: '' @ input_file,
                                               lit ''Sorting entries by year...'',
                                               lit ''ERROR in writing the HTML file: '' @ cause],
                        out_file := Some (take n (full_html html_content))\<rparr>))"
proof (intro conjI allI impI)
  fix err
  assume "loaded = Inl err"
  then show "convert_bib_to_html lower loaded outcome input_file output_file w
        = (None, w\<lparr>console := console w @ [lit ''Reading the BibTeX file: '' @ input_file,
                                            read_error_message input_file err]\<rparr>)"
    by (cases err) (simp_all add: convert_bib_to_html_def print_def read_error_message_def)
next
  fix entries err
  assume "loaded = Inr entries \<and> sort_entries lower entries = Inl err"
  then show "fst (convert_bib_to_html lower loaded outcome input_file output_file w) = Some err"
    and "out_file (snd (convert_bib_to_html lower loaded outcome input_file output_file w))
             = out_file w"
    by (simp_all add: convert_bib_to_html_def print_def)
next
  fix entries sorted_entries err
  assume "loaded = Inr entries \<and> sort_entries lower entries = Inr sorted_entries
         \<and> format_all sorted_entries [] = Inl err"
  then show "fst (convert_bib_to_html lower loaded outcome input_file output_file w) = Some err"
    and "out_file (snd (convert_bib_to_html lower loaded outcome input_file output_file w))
             = out_file w"
    by (simp_all add: convert_bib_to_html_def print_def)
next
  fix cause
  assume "outcome = OpenFails cause"
  then show "out_file (snd (convert_bib_to_html lower loaded outcome input_file output_file w))
           = out_file w"
    by (simp add: convert_bib_to_html_def print_def write_output_def Let_def
        split: sum.splits load_error.splits)
next
  fix entries sorted_entries html_content cause
  assume "loaded = Inr entries \<and> sort_entries lower entries = Inr sorted_entries
         \<and> format_all sorted_entries [] = Inr html_content \<and> outcome = OpenFails cause"
  then show "convert_bib_to_html lower loaded outcome input_file output_file w
           = (None, w\<lparr>console := console w @ [lit ''Reading the BibTeX file: '' @ input_file,
                                               lit ''Sorting entries by year...'',
                                               lit ''ERROR in writing the HTML file: '' @ cause]\<rparr>)"
    by (simp add: convert_bib_to_html_def print_def write_output_def)
next
  fix entries sorted_entries html_content n cause
  assume "loaded = Inr entries \<and> sort_entries lower entries = Inr sorted_entries
         \<and> format_all sorted_entries [] = Inr html_content \<and> outcome = WriteFails n cause"
  then show "convert_bib_to_html lower loaded outcome input_file output_file w
           = (None, w\<lparr>console := console w @ [lit ''Reading the BibTeX file: '' @ input_file,
                                               lit ''Sorting entries by year...'',
                                               lit ''ERROR in writing the HTML file: '' @ cause],
                        out_file := Some (take n (full_html html_content))\<rparr>)"
    by (simp add: convert_bib_to_html_def print_def write_output_def)
qed

text \<open>
  A parse error, a missing input file, a record set whose sort raises, one whose
  formatting raises, and an output file that cannot be opened: the output file keeps its
  old content each time. A write that fails after 20 characters: the output file holds
  those 20 characters.
\<close>

theorem convert_failure_spec_witness:
  "convert_bib_to_html ascii_lower (Inl (OtherException (lit ''Expecting an entry''))) WriteOk
     (lit ''in.bib'') (lit ''out.html'') \<lparr>console = [], out_file = None\<rparr>
   = (None, \<lparr>console = [lit ''Reading the BibTeX file: in.bib'',
        lit ''ERROR while trying to read the BibTeX file: Expecting an entry''],
      out_file = None\<rparr>)
   \<and> convert_bib_to_html ascii_lower (Inl FileNotFoundError) WriteOk
     (lit ''in.bib'') (lit ''out.html'') \<lparr>console = [], out_file = Some (lit ''old'')\<rparr>
   = (None, \<lparr>console = [lit ''Reading the BibTeX file: in.bib'',
        lit ''ERROR: File not found: in.bib''],
      out_file = Some (lit ''old'')\<rparr>)
   \<and> out_file (snd (convert_bib_to_html ascii_lower (Inr [Map.empty]) WriteOk
          (lit ''in.bib'') (lit ''out.html'') \<lparr>console = [], out_file = Some (lit ''old'')\<rparr>))
       = Some (lit ''old'')
   \<and> out_file (snd (convert_bib_to_html ascii_lower (Inr [bib ''Doe and '' ''1998'']) WriteOk
          (lit ''in.bib'') (lit ''out.html'') \<lparr>console = [], out_file = Some (lit ''old'')\<rparr>))
       = Some (lit ''old'')
   \<and> out_file (snd (convert_bib_to_html ascii_lower (Inr []) (OpenFails (lit ''Permission denied''))
          (lit ''in.bib'') (lit ''out.html'') \<lparr>console = [], out_file = Some (lit ''old'')\<rparr>))
       = Some (lit ''old'')
   \<and> convert_bib_to_html ascii_lower (Inr []) (WriteFails 20 (lit ''No space left on device''))
          (lit ''in.bib'') (lit ''out.html'') \<lparr>console = [], out_file = Some (lit ''old'')\<rparr>
       = (None, \<lparr>console = [lit ''Reading the BibTeX file: in.bib'',
                    lit ''Sorting entries by year...'',
                    lit ''ERROR in writing the HTML file: No space left on device''],
                 out_file = Some (lit ''<!DOCTYPE html>'' @ lit [CHR 0x0A] @ lit ''<htm'')\<rparr>)"
proof -
  let ?w = "\<lparr>console = [], out_file = None\<rparr>"
  let ?w' = "\<lparr>console = [], out_file = Some (lit ''old'')\<rparr>"
  let ?e = "bib ''Doe and '' ''1998''"
  have "convert_bib_to_html ascii_lower (Inl (OtherException (lit ''Expecting an entry''))) WriteOk
     (lit ''in.bib'') (lit ''out.html'') ?w
   = (None, \<lparr>console = [lit ''Reading the BibTeX file: in.bib'',
        lit ''ERROR while trying to read the BibTeX file: Expecting an entry''],
      out_file = None\<rparr>)"
    using convert_failure_spec [of "Inl (OtherException (lit ''Expecting an entry''))"
        ascii_lower WriteOk "lit ''in.bib''" "lit ''out.html''" ?w]
    by (simp add: read_error_message_def lit_def)
  moreover have "convert_bib_to_html ascii_lower (Inl FileNotFoundError) WriteOk
     (lit ''in.bib'') (lit ''out.html'') ?w'
   = (None, \<lparr>console = [lit ''Reading the BibTeX file: in.bib'',
        lit ''ERROR: File not found: in.bib''],
      out_file = Some (lit ''old'')\<rparr>)"
    using convert_failure_spec [of "Inl FileNotFoundError"
        ascii_lower WriteOk "lit ''in.bib''" "lit ''out.html''" ?w']
    by (simp add: read_error_message_def lit_def)
  moreover have "out_file (snd (convert_bib_to_html ascii_lower (Inr [Map.empty]) WriteOk
          (lit ''in.bib'') (lit ''out.html'') ?w')) = Some (lit ''old'')"
  proof -
    have "sort_entries ascii_lower [Map.empty] = Inl IndexError"
      by (simp add: sort_entries_def sorted_key_def surname_key_authorless)
    then show ?thesis
      using convert_failure_spec [of "Inr [Map.empty]"
          ascii_lower WriteOk "lit ''in.bib''" "lit ''out.html''" ?w']
      by simp
  qed
  moreover have "out_file (snd (convert_bib_to_html ascii_lower (Inr [?e]) WriteOk
          (lit ''in.bib'') (lit ''out.html'') ?w')) = Some (lit ''old'')"
  proof -
    have "surname_key ascii_lower ?e = Inr (lit ''doe'')"
      by (simp add: sort_eval str_eval)
    then have "sort_entries ascii_lower [?e] = Inr [?e]"
      by (simp add: sort_entries_def sorted_key_def)
    moreover have "get_author_string ?e = Inl IndexError"
      by (simp add: get_author_string_def author_last_def index_last_def bib_def str_eval)
    then have "format_all [?e] [] = Inl IndexError"
      by (simp add: format_bibtex_entry_error)
    ultimately show ?thesis
      using convert_failure_spec [of "Inr [?e]"
          ascii_lower WriteOk "lit ''in.bib''" "lit ''out.html''" ?w']
      by simp
  qed
  moreover have "out_file (snd (convert_bib_to_html ascii_lower (Inr [])
          (OpenFails (lit ''Permission denied'')) (lit ''in.bib'') (lit ''out.html'') ?w'))
       = Some (lit ''old'')"
    using convert_failure_spec [of "Inr []" ascii_lower "OpenFails (lit ''Permission denied'')"
          "lit ''in.bib''" "lit ''out.html''" ?w']
    by simp
  moreover have "convert_bib_to_html ascii_lower (Inr [])
          (WriteFails 20 (lit ''No space left on device'')) (lit ''in.bib'') (lit ''out.html'') ?w'
       = (None, \<lparr>console = [lit ''Reading the BibTeX file: in.bib'',
                    lit ''Sorting entries by year...'',
                    lit ''ERROR in writing the HTML file: No space left on device''],
                 out_file = Some (lit ''<!DOCTYPE html>'' @ lit [CHR 0x0A] @ lit ''<htm'')\<rparr>)"
  proof -
    have "sort_entries ascii_lower [] = Inr []"
      by (simp add: sort_entries_def sorted_key_def)
    moreover have "format_all [] [] = Inr []" by simp
    moreover have "take 20 (full_html [])
        = lit ''<!DOCTYPE html>'' @ lit [CHR 0x0A] @ lit ''<htm''"
      by (simp add: full_html_def nl_def dq_def lit_def)
    ultimately show ?thesis
      using convert_failure_spec [of "Inr []" ascii_lower
          "WriteFails 20 (lit ''No space left on device'')" "lit ''in.bib''" "lit ''out.html''" ?w']
      by (simp add: lit_def)
  qed
  ultimately show ?thesis by simp
qed

end
